theory Spec2Isabelle
  imports Main "HOL-Library.Sublist"
begin

section \<open>Strings and the three regular expressions of the parser\<close>

text \<open>
  A JavaScript string is modelled as a \<^typ>\<open>string\<close>, a list of characters. Every pattern
  the parser searches for is ASCII and is matched unit by unit, so the element type of
  the list plays no role beyond equality with the pattern's characters.
\<close>

definition newline :: char where
  "newline = CHR 0x0A"

definition dquote :: char where
  "dquote = CHR 0x22"

definition squote :: char where
  "squote = CHR 0x27"

text \<open>\<^verbatim>\<open>s.includes(sub)\<close>: the substring test, trying every start index of \<open>s\<close>.\<close>

fun includes_sub :: "string \<Rightarrow> string \<Rightarrow> bool" where
  "includes_sub [] sub = (sub = [])"
| "includes_sub (c # cs) sub = (prefix sub (c # cs) \<or> includes_sub cs sub)"

text \<open>
  \<^verbatim>\<open>analysis.split('\n')\<close>: the pieces between newline characters, in order. The empty
  string splits into one empty line. \<open>cur\<close> is the line being collected.
\<close>

fun split_from :: "string \<Rightarrow> string \<Rightarrow> string list" where
  "split_from cur [] = [cur]"
| "split_from cur (c # cs) =
     (if c = newline then cur # split_from [] cs else split_from (cur @ [c]) cs)"

definition split_newline :: "string \<Rightarrow> string list" where
  "split_newline s = split_from [] s"

text \<open>
  The three regular expressions of the source have one shape: a literal opening, then a
  capture group \<^verbatim>\<open>([^q]+)\<close> of one or more characters other than the closing quote
  \<open>q\<close>, then \<open>q\<close>:
  \<^verbatim>\<open>/id="([^"]+)"/\<close>, \<^verbatim>\<open>/class="([^"]+)"/\<close>, \<^verbatim>\<open>/value="([^"]+)"/\<close> and \<^verbatim>\<open>/'([^']+)'/\<close>.
  The group is greedy and cannot give a character back to any use (the character after
  it must be \<open>q\<close>, which the group excludes), so at a given start index the match is
  the maximal run of non-\<open>q\<close> characters, provided it is not empty and is followed by
  \<open>q\<close>. \<^verbatim>\<open>String.prototype.match\<close> without the g flag returns the match at the least start index.
\<close>

fun strip_prefix :: "string \<Rightarrow> string \<Rightarrow> string option" where
  "strip_prefix [] s = Some s"
| "strip_prefix (p # ps) [] = None"
| "strip_prefix (p # ps) (c # cs) = (if p = c then strip_prefix ps cs else None)"

definition match_at :: "string \<Rightarrow> char \<Rightarrow> string \<Rightarrow> string option" where
  "match_at opening q s =
     (case strip_prefix opening s of
        None \<Rightarrow> None
      | Some rest \<Rightarrow>
          (let g = takeWhile (\<lambda>c. c \<noteq> q) rest
           in if g \<noteq> [] \<and> dropWhile (\<lambda>c. c \<noteq> q) rest \<noteq> [] then Some g else None))"

text \<open>The value of the capture group of the leftmost match, or \<open>None\<close> for a null match result.\<close>

fun regex_group :: "string \<Rightarrow> char \<Rightarrow> string \<Rightarrow> string option" where
  "regex_group opening q [] = match_at opening q []"
| "regex_group opening q (c # cs) =
     (case match_at opening q (c # cs) of
        Some g \<Rightarrow> Some g
      | None \<Rightarrow> regex_group opening q cs)"

section \<open>Actions and the plan parser\<close>

text \<open>
  An action object of the source: \<^verbatim>\<open>{ type, selector }\<close> for click and submit,
  \<^verbatim>\<open>{ type, selector, value }\<close> for type. \<open>selector\<close> is a string or \<^verbatim>\<open>null\<close> (\<open>None\<close>);
  \<open>value'\<close> is \<open>None\<close> on the objects that have no such property.
\<close>

record action =
  type :: string
  selector :: "string option"
  value' :: "string option"

text \<open>\<^verbatim>\<open>extractSelector(line)\<close>\<close>

definition extractSelector :: "string \<Rightarrow> string option" where
  "extractSelector line =
     (case regex_group (''id='' @ [dquote]) dquote line of
        Some idMatch \<Rightarrow> Some (''#'' @ idMatch)
      | None \<Rightarrow>
         (case regex_group (''class='' @ [dquote]) dquote line of
            Some classMatch \<Rightarrow> Some (''.'' @ classMatch)
          | None \<Rightarrow>
             (case regex_group [squote] squote line of
                Some textMatch \<Rightarrow> Some (''text='' @ [dquote] @ textMatch @ [dquote])
              | None \<Rightarrow> None)))"

text \<open>\<^verbatim>\<open>extractValue(line)\<close>\<close>

definition extractValue :: "string \<Rightarrow> string" where
  "extractValue line =
     (case regex_group (''value='' @ [dquote]) dquote line of
        Some valueMatch \<Rightarrow> valueMatch
      | None \<Rightarrow> [])"

text \<open>
  The loop of \<^verbatim>\<open>parseAnalysis\<close> over the lines; \<open>actions\<close> is the array built so far and
  \<^verbatim>\<open>actions.push\<close> appends to it.
\<close>

fun parse_lines :: "string list \<Rightarrow> action list \<Rightarrow> action list" where
  "parse_lines [] actions = actions"
| "parse_lines (line # lines) actions =
     (if includes_sub line ''click'' then
        parse_lines lines
          (actions @ [\<lparr>type = ''click'', selector = extractSelector line, value' = None\<rparr>])
      else if includes_sub line ''type'' then
        parse_lines lines
          (actions @ [\<lparr>type = ''type'', selector = extractSelector line,
                        value' = Some (extractValue line)\<rparr>])
      else if includes_sub line ''submit'' then
        parse_lines lines
          (actions @ [\<lparr>type = ''submit'', selector = extractSelector line, value' = None\<rparr>])
      else parse_lines lines actions)"

text \<open>
  The message of the TypeError that reading a property of \<^verbatim>\<open>null\<close> throws, in V8's wording.
\<close>

definition null_property_message :: "string \<Rightarrow> string" where
  "null_property_message p =
     ''Cannot read properties of null (reading '' @ [squote] @ p @ [squote] @ '')''"

text \<open>
  \<^verbatim>\<open>parseAnalysis(analysis)\<close>. The argument is the content of the language model's message:
  a string, or \<^verbatim>\<open>null\<close> (\<open>None\<close>), on which \<^verbatim>\<open>analysis.split\<close> throws. \<open>Inl\<close> carries the
  message of a thrown error, \<open>Inr\<close> the returned array.
\<close>

definition parseAnalysis :: "string option \<Rightarrow> string + action list" where
  "parseAnalysis analysis =
     (case analysis of
        None \<Rightarrow> Inl (null_property_message ''split'')
      | Some s \<Rightarrow> Inr (parse_lines (split_newline s) []))"

text \<open>A line that the classification of \<^verbatim>\<open>parseAnalysis\<close> keeps.\<close>

definition keyword_line :: "string \<Rightarrow> bool" where
  "keyword_line line =
     (includes_sub line ''click'' \<or> includes_sub line ''type'' \<or> includes_sub line ''submit'')"

section \<open>The browser driver and the language-model service\<close>

text \<open>
  The browser (puppeteer) and the chat-completion service are outside the repository.
  Each of their operations is a function of the environment's state \<open>'w\<close> that returns
  an outcome and the next state. An outcome is \<open>Inl m\<close> when the awaited call rejects
  with an error whose \<^verbatim>\<open>message\<close> is \<open>m\<close>, and \<open>Inr v\<close> when it resolves with \<open>v\<close>.
  The code awaits every call before the next statement, so the calls happen in program order.
\<close>

type_synonym 'a outcome = "string + 'a"

text \<open>
  The snapshot \<^verbatim>\<open>extractPageContent\<close> returns. \<^verbatim>\<open>JSON.stringify\<close> is library code, and the
  three element arrays are only ever serialised: each is carried as its serialised text.
\<close>

record page_content =
  text' :: string
  links :: string
  inputs :: string
  buttons :: string

text \<open>
  The request of \<^verbatim>\<open>createChatCompletion\<close>: the model name, the content of the system
  message and the content of the user message. (The request's constant temperature is
  left out.)
\<close>

record chat_request =
  model :: string
  system_content :: string
  user_content :: string

text \<open>The calls the code makes on its environment, with their arguments.\<close>

datatype call =
    Launch
  | NewPage
  | BrowserClose
  | Goto string nat
  | EvaluateContent
  | CreateChatCompletion chat_request
  | Click "string option"
  | TypeInto "string option" "string option"
  | EvaluateSubmit "string option"
  | WaitForNetworkIdle nat

text \<open>
  \<open>launch\<close>: \<^verbatim>\<open>chromium.puppeteer.launch\<close> (with the evaluation of its arguments);
  \<open>newPage\<close>: \<^verbatim>\<open>browser.newPage\<close>; \<open>browser_close\<close>: \<^verbatim>\<open>browser.close\<close>;
  \<open>goto\<close>: \<^verbatim>\<open>page.goto(url, {waitUntil: 'networkidle0', timeout})\<close>;
  \<open>evaluate_content\<close>: \<^verbatim>\<open>page.evaluate\<close> of the extraction function;
  \<open>createChatCompletion\<close>: the contents \<^verbatim>\<open>choices[i].message.content\<close> of the completion,
  each a string or \<^verbatim>\<open>null\<close>;
  \<open>click\<close>: \<^verbatim>\<open>page.click(selector)\<close>; \<open>type_into\<close>: \<^verbatim>\<open>page.type(selector, value)\<close>;
  \<open>evaluate_submit\<close>: \<^verbatim>\<open>page.evaluate\<close> of the function that submits the element
  \<^verbatim>\<open>document.querySelector(selector)\<close>;
  \<open>waitForNetworkIdle\<close>: \<^verbatim>\<open>page.waitForNetworkIdle({timeout})\<close>.
\<close>

record 'w env =
  launch :: "'w \<Rightarrow> unit outcome \<times> 'w"
  newPage :: "'w \<Rightarrow> unit outcome \<times> 'w"
  browser_close :: "'w \<Rightarrow> unit outcome \<times> 'w"
  goto :: "string \<Rightarrow> nat \<Rightarrow> 'w \<Rightarrow> unit outcome \<times> 'w"
  evaluate_content :: "'w \<Rightarrow> page_content outcome \<times> 'w"
  createChatCompletion :: "chat_request \<Rightarrow> 'w \<Rightarrow> string option list outcome \<times> 'w"
  click :: "string option \<Rightarrow> 'w \<Rightarrow> unit outcome \<times> 'w"
  type_into :: "string option \<Rightarrow> string option \<Rightarrow> 'w \<Rightarrow> unit outcome \<times> 'w"
  evaluate_submit :: "string option \<Rightarrow> 'w \<Rightarrow> unit outcome \<times> 'w"
  waitForNetworkIdle :: "nat \<Rightarrow> 'w \<Rightarrow> unit outcome \<times> 'w"

text \<open>The state of a run: the environment's state and the calls made so far, oldest first.\<close>

record 'w run =
  world :: 'w
  calls :: "call list"

definition invoke :: "call \<Rightarrow> ('w \<Rightarrow> 'a outcome \<times> 'w) \<Rightarrow> 'w run \<Rightarrow> 'a outcome \<times> 'w run" where
  "invoke c f s = (case f (world s) of (r, w) \<Rightarrow> (r, \<lparr>world = w, calls = calls s @ [c]\<rparr>))"

section \<open>The action executor\<close>

text \<open>
  The values the code builds at run time. \<^verbatim>\<open>executeActions\<close> pushes template strings only;
  booleans and objects are the other values the statements about its results speak of.
\<close>

datatype js_value =
    JString string
  | JBool bool
  | JObject "(string \<times> js_value) list"

text \<open>\<^verbatim>\<open>${x}\<close> in a template literal, for \<open>x\<close> a string or \<^verbatim>\<open>null\<close>.\<close>

definition template :: "string option \<Rightarrow> string" where
  "template x = (case x of None \<Rightarrow> ''null'' | Some v \<Rightarrow> v)"

text \<open>The string the catch block pushes.\<close>

definition failure_entry :: "action \<Rightarrow> string \<Rightarrow> js_value" where
  "failure_entry a m = JString (''Failed to execute '' @ type a @ '': '' @ m)"

text \<open>
  \<^verbatim>\<open>await this.page.waitForNetworkIdle({ timeout: 3000 }).catch(() => {})\<close>:
  a rejection of the wait is replaced by a resolved promise, so the outcome is dropped.
\<close>

definition settle :: "'w env \<Rightarrow> js_value list \<Rightarrow> 'w run \<Rightarrow> js_value list \<times> 'w run" where
  "settle env results s =
     (case invoke (WaitForNetworkIdle 3000) (waitForNetworkIdle env 3000) s of
        (_, s1) \<Rightarrow> (results, s1))"

text \<open>
  One iteration of the loop of \<^verbatim>\<open>executeActions\<close>: the try block (the switch, then the
  wait) and the catch block. A call that rejects leaves the try block at once.
\<close>

definition execute_action ::
  "'w env \<Rightarrow> action \<Rightarrow> js_value list \<Rightarrow> 'w run \<Rightarrow> js_value list \<times> 'w run" where
  "execute_action env a results s =
     (if type a = ''click'' then
        (case invoke (Click (selector a)) (click env (selector a)) s of
           (Inl m, s1) \<Rightarrow> (results @ [failure_entry a m], s1)
         | (Inr _, s1) \<Rightarrow>
             settle env (results @ [JString (''Clicked '' @ template (selector a))]) s1)
      else if type a = ''type'' then
        (case invoke (TypeInto (selector a) (value' a))
                (type_into env (selector a) (value' a)) s of
           (Inl m, s1) \<Rightarrow> (results @ [failure_entry a m], s1)
         | (Inr _, s1) \<Rightarrow>
             settle env (results @ [JString (''Typed into '' @ template (selector a))]) s1)
      else if type a = ''submit'' then
        (case invoke (EvaluateSubmit (selector a)) (evaluate_submit env (selector a)) s of
           (Inl m, s1) \<Rightarrow> (results @ [failure_entry a m], s1)
         | (Inr _, s1) \<Rightarrow>
             settle env (results @ [JString (''Submitted form '' @ template (selector a))]) s1)
      else settle env results s)"

fun execute_loop ::
  "'w env \<Rightarrow> action list \<Rightarrow> js_value list \<Rightarrow> 'w run \<Rightarrow> js_value list \<times> 'w run" where
  "execute_loop env [] results s = (results, s)"
| "execute_loop env (a # rest) results s =
     (case execute_action env a results s of
        (results1, s1) \<Rightarrow> execute_loop env rest results1 s1)"

text \<open>
  \<^verbatim>\<open>executeActions(actions)\<close>, for an agent whose \<^verbatim>\<open>page\<close> is set, the only state in which
  \<^verbatim>\<open>executeTask\<close> reaches it.
\<close>

definition executeActions ::
  "'w env \<Rightarrow> action list \<Rightarrow> 'w run \<Rightarrow> js_value list \<times> 'w run" where
  "executeActions env actions s = execute_loop env actions [] s"

text \<open>The switch of the executor has a case for the action's type.\<close>

definition known_type :: "action \<Rightarrow> bool" where
  "known_type a = (type a = ''click'' \<or> type a = ''type'' \<or> type a = ''submit'')"

text \<open>The call the switch makes for an action of a known type.\<close>

definition driver_call :: "action \<Rightarrow> call" where
  "driver_call a =
     (if type a = ''click'' then Click (selector a)
      else if type a = ''type'' then TypeInto (selector a) (value' a)
      else EvaluateSubmit (selector a))"

text \<open>The string pushed after the call for an action of a known type has resolved.\<close>

definition success_entry :: "action \<Rightarrow> js_value" where
  "success_entry a =
     (if type a = ''click'' then JString (''Clicked '' @ template (selector a))
      else if type a = ''type'' then JString (''Typed into '' @ template (selector a))
      else JString (''Submitted form '' @ template (selector a)))"

text \<open>A result is a failure when it is a string that the catch block built.\<close>

definition failed :: "js_value \<Rightarrow> bool" where
  "failed v = (case v of JString d \<Rightarrow> prefix ''Failed to execute '' d | _ \<Rightarrow> False)"

section \<open>The task orchestrator\<close>

text \<open>The fields \<^verbatim>\<open>browser\<close> and \<^verbatim>\<open>page\<close> of a \<^verbatim>\<open>WebAgent\<close>: \<^verbatim>\<open>null\<close> (\<open>None\<close>) or set.\<close>

record agent =
  browser :: "unit option"
  page :: "unit option"

text \<open>The object \<^verbatim>\<open>executeTask\<close> returns.\<close>

record task_result =
  success :: bool
  result :: "js_value list"
  message :: string

text \<open>\<^verbatim>\<open>extractPageContent()\<close>\<close>

definition extractPageContent :: "'w env \<Rightarrow> 'w run \<Rightarrow> page_content outcome \<times> 'w run" where
  "extractPageContent env s = invoke EvaluateContent (evaluate_content env) s"

text \<open>The template literal of \<^verbatim>\<open>analyzeContent\<close>, line by line, each line indented by eight spaces.\<close>

definition indent :: string where
  "indent = replicate 8 (CHR '' '')"

definition prompt_text :: "page_content \<Rightarrow> string \<Rightarrow> string" where
  "prompt_text content task =
     [newline]
     @ indent @ ''Analyze this webpage and determine how to complete the following task:'' @ [newline]
     @ indent @ [dquote] @ task @ [dquote] @ [newline]
     @ [newline]
     @ indent @ ''Page Content:'' @ [newline]
     @ indent @ take 1000 (text' content) @ ''... // Truncated for token limit'' @ [newline]
     @ [newline]
     @ indent @ ''Available Elements:'' @ [newline]
     @ indent @ ''Links: '' @ links content @ [newline]
     @ indent @ ''Inputs: '' @ inputs content @ [newline]
     @ indent @ ''Buttons: '' @ buttons content @ [newline]
     @ [newline]
     @ indent @ ''Provide a list of specific actions needed to complete the task.'' @ [newline]
     @ indent @ ''Each action should include:'' @ [newline]
     @ indent @ ''1. Action type (click, type, submit)'' @ [newline]
     @ indent @ ''2. Target element'' @ [newline]
     @ indent @ ''3. Any required values'' @ [newline]
     @ indent @ ''4. Order of execution'' @ [newline]
     @ indent"

definition chat_request_for :: "page_content \<Rightarrow> string \<Rightarrow> chat_request" where
  "chat_request_for content task =
     \<lparr>model = ''gpt-4'',
      system_content = ''You are a web automation expert. Analyze the page and provide specific, actionable steps to complete the task.'',
      user_content = prompt_text content task\<rparr>"

text \<open>
  The message of the TypeError that reading a property of \<^verbatim>\<open>undefined\<close> throws, in V8's wording.
\<close>

definition undefined_property_message :: "string \<Rightarrow> string" where
  "undefined_property_message p =
     ''Cannot read properties of undefined (reading '' @ [squote] @ p @ [squote] @ '')''"

text \<open>
  \<^verbatim>\<open>analyzeContent(content, task)\<close>: \<^verbatim>\<open>completion.data.choices[0].message.content\<close> goes to
  \<^verbatim>\<open>parseAnalysis\<close>; with no choice at all, \<^verbatim>\<open>choices[0]\<close> is \<^verbatim>\<open>undefined\<close> and reading
  its \<^verbatim>\<open>message\<close> throws.
\<close>

definition analyzeContent ::
  "'w env \<Rightarrow> page_content \<Rightarrow> string \<Rightarrow> 'w run \<Rightarrow> action list outcome \<times> 'w run" where
  "analyzeContent env content task s =
     (case invoke (CreateChatCompletion (chat_request_for content task))
             (createChatCompletion env (chat_request_for content task)) s of
        (Inl m, s1) \<Rightarrow> (Inl m, s1)
      | (Inr choices, s1) \<Rightarrow>
          (case choices of
             [] \<Rightarrow> (Inl (undefined_property_message ''message''), s1)
           | c # _ \<Rightarrow> (parseAnalysis c, s1)))"

text \<open>The try block of \<^verbatim>\<open>executeTask\<close>: \<open>Inl m\<close> when a statement of the block throws.\<close>

definition executeTask_try ::
  "'w env \<Rightarrow> agent \<Rightarrow> string \<Rightarrow> string \<Rightarrow> 'w run \<Rightarrow> task_result outcome \<times> 'w run" where
  "executeTask_try env ag url task s =
     (case page ag of
        None \<Rightarrow> (Inl (null_property_message ''goto''), s)
      | Some _ \<Rightarrow>
          (case invoke (Goto url 8000) (goto env url 8000) s of
             (Inl m, s1) \<Rightarrow> (Inl m, s1)
           | (Inr _, s1) \<Rightarrow>
               (case extractPageContent env s1 of
                  (Inl m, s2) \<Rightarrow> (Inl m, s2)
                | (Inr content, s2) \<Rightarrow>
                    (case analyzeContent env content task s2 of
                       (Inl m, s3) \<Rightarrow> (Inl m, s3)
                     | (Inr analysis, s3) \<Rightarrow>
                         (case executeActions env analysis s3 of
                            (res, s4) \<Rightarrow>
                              (Inr \<lparr>success = True, result = res,
                                    message = ''Task completed successfully''\<rparr>, s4))))))"

text \<open>
  \<^verbatim>\<open>executeTask(url, task)\<close>: the catch block throws a new error whose message wraps the
  message of the caught one.
\<close>

definition executeTask ::
  "'w env \<Rightarrow> agent \<Rightarrow> string \<Rightarrow> string \<Rightarrow> 'w run \<Rightarrow> task_result outcome \<times> 'w run" where
  "executeTask env ag url task s =
     (case executeTask_try env ag url task s of
        (Inl m, s1) \<Rightarrow> (Inl (''Task execution failed: '' @ m), s1)
      | (Inr r, s1) \<Rightarrow> (Inr r, s1))"

section \<open>The request handler\<close>

text \<open>\<^verbatim>\<open>initialize()\<close>: an error of either call propagates to the caller.\<close>

definition initialize :: "'w env \<Rightarrow> agent \<Rightarrow> 'w run \<Rightarrow> agent outcome \<times> 'w run" where
  "initialize env ag s =
     (case invoke Launch (launch env) s of
        (Inl m, s1) \<Rightarrow> (Inl m, s1)
      | (Inr _, s1) \<Rightarrow>
          (case invoke NewPage (newPage env) s1 of
             (Inl m, s2) \<Rightarrow> (Inl m, s2)
           | (Inr _, s2) \<Rightarrow> (Inr (ag\<lparr>browser := Some (), page := Some ()\<rparr>), s2)))"

text \<open>\<^verbatim>\<open>close()\<close>\<close>

definition close :: "'w env \<Rightarrow> agent \<Rightarrow> 'w run \<Rightarrow> unit outcome \<times> 'w run" where
  "close env ag s =
     (case browser ag of
        None \<Rightarrow> (Inr (), s)
      | Some _ \<Rightarrow> invoke BrowserClose (browser_close env) s)"

text \<open>
  The request: its method and the two properties the handler reads from its body, each a
  string or absent. The response: the status and the JSON body, an object
  \<^verbatim>\<open>{ error }\<close> or the task's result.
\<close>

record request =
  http_method :: string
  url :: "string option"
  task :: "string option"

datatype body =
    ErrorBody string
  | ResultBody task_result

record response =
  status :: nat
  json :: body

text \<open>\<^verbatim>\<open>!x\<close> for a property that is absent or a string.\<close>

definition falsy :: "string option \<Rightarrow> bool" where
  "falsy x = (case x of None \<Rightarrow> True | Some v \<Rightarrow> v = [])"

text \<open>\<^verbatim>\<open>new WebAgent(openaiKey)\<close>\<close>

definition new_WebAgent :: agent where
  "new_WebAgent = \<lparr>browser = None, page = None\<rparr>"

text \<open>
  \<^verbatim>\<open>handler(req, res)\<close>. The try block initializes the agent, runs the task, closes the
  agent and answers 200; the catch block answers 500 with the message of the error.
\<close>

definition handler :: "'w env \<Rightarrow> request \<Rightarrow> 'w run \<Rightarrow> response \<times> 'w run" where
  "handler env req s =
     (if http_method req \<noteq> ''POST'' then
        (\<lparr>status = 405, json = ErrorBody ''Method not allowed''\<rparr>, s)
      else if falsy (url req) \<or> falsy (task req) then
        (\<lparr>status = 400, json = ErrorBody ''URL and task are required''\<rparr>, s)
      else
        (case initialize env new_WebAgent s of
           (Inl m, s1) \<Rightarrow> (\<lparr>status = 500, json = ErrorBody m\<rparr>, s1)
         | (Inr ag, s1) \<Rightarrow>
             (case executeTask env ag (the (url req)) (the (task req)) s1 of
                (Inl m, s2) \<Rightarrow> (\<lparr>status = 500, json = ErrorBody m\<rparr>, s2)
              | (Inr r, s2) \<Rightarrow>
                  (case close env ag s2 of
                     (Inl m, s3) \<Rightarrow> (\<lparr>status = 500, json = ErrorBody m\<rparr>, s3)
                   | (Inr _, s3) \<Rightarrow> (\<lparr>status = 200, json = ResultBody r\<rparr>, s3)))))"

section \<open>Notions the statements are phrased in\<close>

text \<open>
  An attribute pattern as the specification reads it on a line: after the prefix \<open>pre\<close>
  comes the opening, then a non-empty text \<open>g\<close> free of the closing quote \<open>q\<close>, then
  \<open>q\<close>. The first occurrence is the one with the shortest prefix.
\<close>

definition occurs_at :: "string \<Rightarrow> char \<Rightarrow> string \<Rightarrow> string \<Rightarrow> string \<Rightarrow> bool" where
  "occurs_at opening q line pre g =
     (g \<noteq> [] \<and> q \<notin> set g \<and> (\<exists>post. line = pre @ opening @ g @ q # post))"

definition first_occurrence :: "string \<Rightarrow> char \<Rightarrow> string \<Rightarrow> string \<Rightarrow> bool" where
  "first_occurrence opening q line g =
     (\<exists>pre. occurs_at opening q line pre g
        \<and> (\<forall>pre' g'. occurs_at opening q line pre' g' \<longrightarrow> length pre \<le> length pre'))"

definition no_occurrence :: "string \<Rightarrow> char \<Rightarrow> string \<Rightarrow> bool" where
  "no_occurrence opening q line = (\<forall>pre g. \<not> occurs_at opening q line pre g)"

text \<open>The operation of the environment behind the call for an action of a known type.\<close>

definition driver_op :: "'w env \<Rightarrow> action \<Rightarrow> 'w \<Rightarrow> unit outcome \<times> 'w" where
  "driver_op env a =
     (if type a = ''click'' then click env (selector a)
      else if type a = ''type'' then type_into env (selector a) (value' a)
      else evaluate_submit env (selector a))"

text \<open>
  The \<^verbatim>\<open>ActionResult\<close> of the specification, \<^verbatim>\<open>{description: string, succeeded: bool}\<close>,
  as a shape of run-time values.
\<close>

definition is_ActionResult :: "js_value \<Rightarrow> bool" where
  "is_ActionResult v =
     (case v of
        JObject props \<Rightarrow>
          (case (map_of props ''description'', map_of props ''succeeded'') of
             (Some (JString _), Some (JBool _)) \<Rightarrow> True
           | _ \<Rightarrow> False)
      | _ \<Rightarrow> False)"

section \<open>A stub environment\<close>

text \<open>
  An environment to run the definitions on. Its state is the list of the selectors that
  match an element of the page: an operation on such a selector resolves, and one on any
  other target, \<^verbatim>\<open>null\<close> included, rejects. Navigation to one address times out, the
  language model answers with a fixed plan, and every wait for the network times out.
\<close>

definition no_node :: "string option \<Rightarrow> string" where
  "no_node sel = ''No node found for selector: '' @ template sel"

definition stub_target :: "string option \<Rightarrow> string list \<Rightarrow> unit outcome \<times> string list" where
  "stub_target sel w =
     (case sel of
        None \<Rightarrow> (Inl (no_node sel), w)
      | Some x \<Rightarrow> if x \<in> set w then (Inr (), w) else (Inl (no_node sel), w))"

definition stub_plan :: string where
  "stub_plan = ''1. click the button with id='' @ [dquote] @ ''login-btn'' @ [dquote]"

definition stub_env :: "string list env" where
  "stub_env =
     \<lparr>launch = (\<lambda>w. (Inr (), w)),
      newPage = (\<lambda>w. (Inr (), w)),
      browser_close = (\<lambda>w. (Inr (), w)),
      goto = (\<lambda>u t w. if u = ''http://down.test''
                        then (Inl ''Navigation timeout of 8000 ms exceeded'', w)
                        else (Inr (), w)),
      evaluate_content = (\<lambda>w. (Inr \<lparr>text' = ''Sign in'', links = ''[]'', inputs = ''[]'',
                                      buttons = ''[]''\<rparr>, w)),
      createChatCompletion = (\<lambda>r w. (Inr [Some stub_plan], w)),
      click = stub_target,
      type_into = (\<lambda>sel v. stub_target sel),
      evaluate_submit = stub_target,
      waitForNetworkIdle = (\<lambda>t w. (Inl ''Timed out after waiting 3000ms'', w))\<rparr>"

text \<open>The start of a run on a page with the given elements.\<close>

definition start :: "string list \<Rightarrow> string list run" where
  "start w = \<lparr>world = w, calls = []\<rparr>"

section \<open>Facts about the parser\<close>

lemma includes_sublist: "includes_sub s sub = sublist sub s"
  by (induction s) (auto simp: sublist_Cons_right)

lemma split_from_concat:
  "concat (map (\<lambda>l. l @ [newline]) (split_from cur s)) = cur @ s @ [newline]"
  by (induction s arbitrary: cur) auto

lemma split_from_no_newline:
  "newline \<notin> set cur \<Longrightarrow> \<forall>l \<in> set (split_from cur s). newline \<notin> set l"
proof (induction s arbitrary: cur)
  case Nil
  then show ?case by simp
next
  case (Cons c cs)
  show ?case
  proof (cases "c = newline")
    case True
    with Cons.IH [of "[]"] Cons.prems show ?thesis by simp
  next
    case False
    with Cons.IH [of "cur @ [c]"] Cons.prems show ?thesis by simp
  qed
qed

lemma split_from_length:
  "length (split_from cur s) = Suc (length (filter (\<lambda>c. c = newline) s))"
  by (induction s arbitrary: cur) auto

lemma parse_lines_length:
  "length (parse_lines lines actions) = length actions + length (filter keyword_line lines)"
  by (induction lines arbitrary: actions) (auto simp: keyword_line_def)

lemma parse_lines_acc: "parse_lines lines actions = actions @ parse_lines lines []"
proof (induction lines arbitrary: actions)
  case Nil
  show ?case by simp
next
  case (Cons l ls)
  have a: "\<And>x. parse_lines ls (actions @ [x]) = actions @ parse_lines ls [x]"
    using Cons.IH [of "actions @ [x]" for x] Cons.IH [of "[x]" for x] by simp
  show ?case using a Cons.IH [of actions] by simp
qed

lemma parse_lines_concat:
  "parse_lines lines [] = concat (map (\<lambda>l. parse_lines [l] []) lines)"
proof (induction lines)
  case Nil
  show ?case by simp
next
  case (Cons l ls)
  have "parse_lines (l # ls) [] = parse_lines ls (parse_lines [l] [])" by simp
  also have "\<dots> = parse_lines [l] [] @ parse_lines ls []" by (rule parse_lines_acc)
  finally show ?case using Cons.IH by simp
qed

lemma strip_prefix_Some_iff: "strip_prefix p s = Some r \<longleftrightarrow> s = p @ r"
  by (induction p s rule: strip_prefix.induct) auto

lemma run_then_quote:
  "q \<notin> set g \<Longrightarrow> takeWhile (\<lambda>c. c \<noteq> q) (g @ q # post) = g
     \<and> dropWhile (\<lambda>c. c \<noteq> q) (g @ q # post) = q # post"
  by (induction g) auto

lemma match_at_Some_iff: "match_at opening q s = Some g \<longleftrightarrow> occurs_at opening q s [] g"
proof
  assume m: "match_at opening q s = Some g"
  then obtain rest where r: "strip_prefix opening s = Some rest"
    by (auto simp: match_at_def split: option.splits)
  from m r have g: "g = takeWhile (\<lambda>c. c \<noteq> q) rest" "g \<noteq> []"
    and d: "dropWhile (\<lambda>c. c \<noteq> q) rest \<noteq> []"
    by (auto simp: match_at_def Let_def split: if_splits)
  from d obtain x post where xp: "dropWhile (\<lambda>c. c \<noteq> q) rest = x # post"
    by (cases "dropWhile (\<lambda>c. c \<noteq> q) rest") auto
  then have "x = q" using hd_dropWhile [of "\<lambda>c. c \<noteq> q" rest] by auto
  with xp g have "rest = g @ q # post"
    using takeWhile_dropWhile_id [of "\<lambda>c. c \<noteq> q" rest] by simp
  moreover have "q \<notin> set g" using g(1) by (auto dest: set_takeWhileD)
  moreover from r have "s = opening @ rest" by (simp add: strip_prefix_Some_iff)
  ultimately show "occurs_at opening q s [] g" using g(2) by (auto simp: occurs_at_def)
next
  assume "occurs_at opening q s [] g"
  then obtain post where s: "s = opening @ g @ q # post" and g: "g \<noteq> []" "q \<notin> set g"
    by (auto simp: occurs_at_def)
  have "strip_prefix opening s = Some (g @ q # post)"
    using s by (simp add: strip_prefix_Some_iff)
  then show "match_at opening q s = Some g"
    using g run_then_quote [of q g post] by (simp add: match_at_def)
qed

lemma occurs_at_Nil_line: "\<not> occurs_at opening q [] pre g"
  by (simp add: occurs_at_def)

lemma occurs_at_shift: "occurs_at opening q (c # cs) (c # pre) g = occurs_at opening q cs pre g"
  by (simp add: occurs_at_def)

lemma occurs_at_Cons_cases:
  "occurs_at opening q (c # cs) pre g \<Longrightarrow> pre = [] \<or> (\<exists>pre'. pre = c # pre' \<and> occurs_at opening q cs pre' g)"
  by (cases pre) (auto simp: occurs_at_def)

lemma regex_group_None_iff: "regex_group opening q s = None \<longleftrightarrow> no_occurrence opening q s"
proof (induction s)
  case Nil
  have "match_at opening q [] = None"
    using match_at_Some_iff [of "opening" q "[]"] occurs_at_Nil_line by (cases "match_at opening q []") auto
  then show ?case by (simp add: no_occurrence_def occurs_at_Nil_line)
next
  case (Cons c cs)
  show ?case
  proof (cases "match_at opening q (c # cs)")
    case (Some g)
    then have "occurs_at opening q (c # cs) [] g" by (simp add: match_at_Some_iff)
    then have "\<not> no_occurrence opening q (c # cs)" by (auto simp: no_occurrence_def)
    with Some show ?thesis by simp
  next
    case None
    then have n0: "\<And>g. \<not> occurs_at opening q (c # cs) [] g"
      using match_at_Some_iff [of "opening" q "c # cs"] by simp
    have "no_occurrence opening q (c # cs) = no_occurrence opening q cs"
    proof
      assume a: "no_occurrence opening q (c # cs)"
      show "no_occurrence opening q cs"
        unfolding no_occurrence_def
      proof (intro allI)
        fix pre g
        from a have "\<not> occurs_at opening q (c # cs) (c # pre) g" by (simp add: no_occurrence_def)
        then show "\<not> occurs_at opening q cs pre g" by (simp add: occurs_at_shift)
      qed
    next
      assume a: "no_occurrence opening q cs"
      show "no_occurrence opening q (c # cs)"
        unfolding no_occurrence_def
      proof (intro allI notI)
        fix pre g
        assume o: "occurs_at opening q (c # cs) pre g"
        from occurs_at_Cons_cases [OF o] o n0 a show False
          by (auto simp: no_occurrence_def)
      qed
    qed
    with None Cons.IH show ?thesis by simp
  qed
qed

lemma regex_group_Some_iff: "regex_group opening q s = Some g \<longleftrightarrow> first_occurrence opening q s g"
proof (induction s)
  case Nil
  have "match_at opening q [] = None"
    using match_at_Some_iff [of "opening" q "[]"] occurs_at_Nil_line by (cases "match_at opening q []") auto
  then show ?case by (simp add: first_occurrence_def occurs_at_Nil_line)
next
  case (Cons c cs)
  show ?case
  proof (cases "match_at opening q (c # cs)")
    case (Some g0)
    then have o: "occurs_at opening q (c # cs) [] g0" by (simp add: match_at_Some_iff)
    have "first_occurrence opening q (c # cs) g \<longleftrightarrow> g = g0"
    proof
      assume "first_occurrence opening q (c # cs) g"
      then obtain pre where p: "occurs_at opening q (c # cs) pre g"
        and least: "\<forall>pre' g'. occurs_at opening q (c # cs) pre' g' \<longrightarrow> length pre \<le> length pre'"
        by (auto simp: first_occurrence_def)
      from least o have "pre = []" by fastforce
      with p have "match_at opening q (c # cs) = Some g" by (simp add: match_at_Some_iff)
      with Some show "g = g0" by simp
    next
      assume "g = g0"
      with o show "first_occurrence opening q (c # cs) g"
        unfolding first_occurrence_def by (intro exI [of _ "[]"]) simp
    qed
    with Some show ?thesis by auto
  next
    case None
    then have n0: "\<And>g. \<not> occurs_at opening q (c # cs) [] g"
      using match_at_Some_iff [of "opening" q "c # cs"] by simp
    have "first_occurrence opening q (c # cs) g = first_occurrence opening q cs g"
    proof
      assume "first_occurrence opening q (c # cs) g"
      then obtain pre where p: "occurs_at opening q (c # cs) pre g"
        and least: "\<forall>pre' g'. occurs_at opening q (c # cs) pre' g' \<longrightarrow> length pre \<le> length pre'"
        by (auto simp: first_occurrence_def)
      from occurs_at_Cons_cases [OF p] p n0 obtain pre1 where
        p1: "pre = c # pre1" "occurs_at opening q cs pre1 g" by auto
      have "\<forall>pre' g'. occurs_at opening q cs pre' g' \<longrightarrow> length pre1 \<le> length pre'"
      proof (intro allI impI)
        fix pre' g'
        assume "occurs_at opening q cs pre' g'"
        then have "occurs_at opening q (c # cs) (c # pre') g'" by (simp add: occurs_at_shift)
        with least have "length pre \<le> length (c # pre')" by blast
        with p1 show "length pre1 \<le> length pre'" by simp
      qed
      with p1 show "first_occurrence opening q cs g" by (auto simp: first_occurrence_def)
    next
      assume "first_occurrence opening q cs g"
      then obtain pre where p: "occurs_at opening q cs pre g"
        and least: "\<forall>pre' g'. occurs_at opening q cs pre' g' \<longrightarrow> length pre \<le> length pre'"
        by (auto simp: first_occurrence_def)
      have "\<forall>pre' g'. occurs_at opening q (c # cs) pre' g' \<longrightarrow> length (c # pre) \<le> length pre'"
      proof (intro allI impI)
        fix pre' g'
        assume a: "occurs_at opening q (c # cs) pre' g'"
        from occurs_at_Cons_cases [OF a] a n0 obtain pre1 where
          "pre' = c # pre1" "occurs_at opening q cs pre1 g'" by auto
        with least show "length (c # pre) \<le> length pre'" by auto
      qed
      moreover from p have "occurs_at opening q (c # cs) (c # pre) g" by (simp add: occurs_at_shift)
      ultimately show "first_occurrence opening q (c # cs) g"
        unfolding first_occurrence_def by blast
    qed
    with None Cons.IH show ?thesis by simp
  qed
qed

lemma occurrence_has_first:
  assumes "occurs_at opening q line pre g"
  shows "\<exists>g0. first_occurrence opening q line g0 \<and> regex_group opening q line = Some g0"
proof -
  from assms have "\<not> no_occurrence opening q line" by (auto simp: no_occurrence_def)
  then have "regex_group opening q line \<noteq> None" by (simp add: regex_group_None_iff)
  then obtain g0 where "regex_group opening q line = Some g0" by auto
  then show ?thesis using regex_group_Some_iff by blast
qed

lemma parse_lines_known: "\<forall>a \<in> set (parse_lines lines []). known_type a"
proof -
  have single: "\<And>l. \<forall>a \<in> set (parse_lines [l] []). known_type a"
    by (simp add: known_type_def)
  have "set (parse_lines lines []) = (\<Union>l \<in> set lines. set (parse_lines [l] []))"
    by (subst parse_lines_concat) (simp only: set_concat set_map image_image)
  with single show ?thesis by blast
qed

lemma parse_lines_member:
  "l \<in> set lines \<Longrightarrow> a \<in> set (parse_lines [l] []) \<Longrightarrow> a \<in> set (parse_lines lines [])"
proof -
  assume l: "l \<in> set lines" and a: "a \<in> set (parse_lines [l] [])"
  have "set (parse_lines lines []) = (\<Union>l \<in> set lines. set (parse_lines [l] []))"
    by (subst parse_lines_concat) (simp only: set_concat set_map image_image)
  with l a show ?thesis by blast
qed

lemma login_line:
  \<open>parse_lines [''1. click the button with id="login-btn"''] []
     = [\<lparr>type = ''click'', selector = Some ''#login-btn'', value' = None\<rparr>]\<close>
  by (simp add: extractSelector_def match_at_def dquote_def)

lemma split_from_run: "newline \<notin> set l \<Longrightarrow> split_from cur l = [cur @ l]"
  by (induction l arbitrary: cur) auto

lemma split_from_line_break:
  "newline \<notin> set l \<Longrightarrow> split_from cur (l @ newline # t) = (cur @ l) # split_from [] t"
  by (induction l arbitrary: cur) auto

lemma split_from_lines:
  "(\<forall>l \<in> set (l0 # ls). newline \<notin> set l) \<Longrightarrow>
   concat (map (\<lambda>l. l @ [newline]) (l0 # ls)) = s @ [newline] \<Longrightarrow>
   split_from cur s = (cur @ l0) # ls"
proof (induction ls arbitrary: l0 s cur)
  case Nil
  then have "s = l0" by simp
  with Nil show ?case by (simp add: split_from_run)
next
  case (Cons l1 ls)
  define t where "t = butlast (concat (map (\<lambda>l. l @ [newline]) (l1 # ls)))"
  have t: "concat (map (\<lambda>l. l @ [newline]) (l1 # ls)) = t @ [newline]"
  proof -
    have "concat (map (\<lambda>l. l @ [newline]) (l1 # ls)) \<noteq> []" by simp
    moreover have "last (concat (map (\<lambda>l. l @ [newline]) (l1 # ls))) = newline"
      by (induction ls arbitrary: l1) (simp_all add: last_append)
    ultimately show ?thesis unfolding t_def by (metis append_butlast_last_id)
  qed
  from Cons.prems(2) t have "l0 @ newline # t @ [newline] = s @ [newline]" by simp
  then have s: "s = l0 @ newline # t" by simp
  have "split_from [] t = ([] @ l1) # ls"
  proof (rule Cons.IH)
    show "\<forall>l \<in> set (l1 # ls). newline \<notin> set l" using Cons.prems(1) by simp
    show "concat (map (\<lambda>l. l @ [newline]) (l1 # ls)) = t @ [newline]" by (rule t)
  qed
  with Cons.prems(1) s show ?case by (simp add: split_from_line_break)
qed

lemma lines_unique:
  assumes "\<forall>l \<in> set lines. newline \<notin> set l"
    and "concat (map (\<lambda>l. l @ [newline]) lines) = s @ [newline]"
  shows "split_newline s = lines"
proof (cases lines)
  case Nil
  with assms(2) show ?thesis by simp
next
  case (Cons l0 ls)
  with assms split_from_lines [of l0 ls s "[]"] show ?thesis by (simp add: split_newline_def)
qed

lemma parse_lines_filter_map:
  "parse_lines lines [] =
     map (\<lambda>l. if sublist ''click'' l
               then \<lparr>type = ''click'', selector = extractSelector l, value' = None\<rparr>
               else if sublist ''type'' l
               then \<lparr>type = ''type'', selector = extractSelector l, value' = Some (extractValue l)\<rparr>
               else \<lparr>type = ''submit'', selector = extractSelector l, value' = None\<rparr>)
       (filter (\<lambda>l. sublist ''click'' l \<or> sublist ''type'' l \<or> sublist ''submit'' l) lines)"
proof (induction lines)
  case Nil
  show ?case by simp
next
  case (Cons l ls)
  have "parse_lines (l # ls) [] = parse_lines [l] [] @ parse_lines ls []"
    using parse_lines_concat [of "l # ls"] parse_lines_concat [of ls] by simp
  then show ?case using Cons.IH by (simp add: includes_sublist)
qed

section \<open>Facts about the executor\<close>

lemma invoke_eq:
  "f (world s) = (r, w) \<Longrightarrow> invoke c f s = (r, \<lparr>world = w, calls = calls s @ [c]\<rparr>)"
  by (simp add: invoke_def)

lemma execute_action_known:
  "known_type a \<Longrightarrow>
   execute_action env a results s =
     (case invoke (driver_call a) (driver_op env a) s of
        (Inl m, s1) \<Rightarrow> (results @ [failure_entry a m], s1)
      | (Inr _, s1) \<Rightarrow> settle env (results @ [success_entry a]) s1)"
  by (auto simp: known_type_def execute_action_def driver_call_def driver_op_def success_entry_def
        split: prod.splits sum.splits)

lemma execute_action_unknown:
  "\<not> known_type a \<Longrightarrow> execute_action env a results s = settle env results s"
  by (simp add: known_type_def execute_action_def)

lemma settle_eq:
  "waitForNetworkIdle env 3000 (world s) = (x, w) \<Longrightarrow>
   settle env results s = (results, \<lparr>world = w, calls = calls s @ [WaitForNetworkIdle 3000]\<rparr>)"
  by (simp add: settle_def invoke_def)

lemma execute_action_rejected:
  assumes "known_type a" and "driver_op env a (world s) = (Inl m, w)"
  shows "execute_action env a results s =
           (results @ [failure_entry a m], \<lparr>world = w, calls = calls s @ [driver_call a]\<rparr>)"
  using assms by (simp add: execute_action_known invoke_eq)

lemma execute_action_resolved:
  assumes "known_type a" and "driver_op env a (world s) = (Inr u, w1)"
    and "waitForNetworkIdle env 3000 w1 = (x, w2)"
  shows "execute_action env a results s =
           (results @ [success_entry a],
            \<lparr>world = w2, calls = calls s @ [driver_call a, WaitForNetworkIdle 3000]\<rparr>)"
  using assms by (simp add: execute_action_known invoke_eq settle_eq)

lemma execute_action_skipped:
  assumes "\<not> known_type a" and "waitForNetworkIdle env 3000 (world s) = (x, w2)"
  shows "execute_action env a results s =
           (results, \<lparr>world = w2, calls = calls s @ [WaitForNetworkIdle 3000]\<rparr>)"
  using assms by (simp add: execute_action_unknown settle_eq)

lemma execute_action_cases:
  obtains
    (rejected) m w where "known_type a" and "driver_op env a (world s) = (Inl m, w)"
      and "execute_action env a results s =
             (results @ [failure_entry a m], \<lparr>world = w, calls = calls s @ [driver_call a]\<rparr>)"
  | (resolved) u w1 x w2 where "known_type a" and "driver_op env a (world s) = (Inr u, w1)"
      and "waitForNetworkIdle env 3000 w1 = (x, w2)"
      and "execute_action env a results s =
             (results @ [success_entry a],
              \<lparr>world = w2, calls = calls s @ [driver_call a, WaitForNetworkIdle 3000]\<rparr>)"
  | (skipped) x w2 where "\<not> known_type a" and "waitForNetworkIdle env 3000 (world s) = (x, w2)"
      and "execute_action env a results s =
             (results, \<lparr>world = w2, calls = calls s @ [WaitForNetworkIdle 3000]\<rparr>)"
proof (cases "known_type a")
  case True
  obtain r w where d: "driver_op env a (world s) = (r, w)" by (cases "driver_op env a (world s)")
  show ?thesis
  proof (cases r)
    case (Inl m)
    with True d execute_action_rejected [of a env s m w results] rejected show ?thesis by blast
  next
    case (Inr u)
    obtain x w2 where "waitForNetworkIdle env 3000 w = (x, w2)"
      by (cases "waitForNetworkIdle env 3000 w")
    with True d Inr execute_action_resolved [of a env s u w x w2 results] resolved
    show ?thesis by blast
  qed
next
  case False
  obtain x w2 where "waitForNetworkIdle env 3000 (world s) = (x, w2)"
    by (cases "waitForNetworkIdle env 3000 (world s)")
  with False execute_action_skipped [of a env s x w2 results] skipped show ?thesis by blast
qed

lemma failed_failure_entry: "failed (failure_entry a m)"
  by (simp add: failed_def failure_entry_def)

lemma not_failed_success_entry: "\<not> failed (success_entry a)"
  by (simp add: failed_def success_entry_def)

lemma driver_call_not_wait: "driver_call a \<noteq> WaitForNetworkIdle n"
  by (simp add: driver_call_def)

lemma execute_loop_length:
  "length (fst (execute_loop env actions results s))
     = length results + length (filter known_type actions)"
proof (induction actions arbitrary: results s)
  case Nil
  show ?case by simp
next
  case (Cons a rest)
  show ?case
    by (cases rule: execute_action_cases [of a env s results]) (simp_all add: Cons.IH)
qed

lemma execute_loop_all2:
  assumes "\<And>a results s. a \<in> set actions \<Longrightarrow>
             \<exists>r. fst (execute_action env a results s) = results @ [r] \<and> Q a r"
  shows "\<exists>rs. fst (execute_loop env actions results s) = results @ rs \<and> list_all2 Q actions rs"
  using assms
proof (induction actions arbitrary: results s)
  case Nil
  show ?case by simp
next
  case (Cons a rest)
  from Cons.prems [of a results s] obtain r where
    r: "fst (execute_action env a results s) = results @ [r]" "Q a r" by auto
  obtain s1 where s1: "execute_action env a results s = (results @ [r], s1)"
    using r(1) by (cases "execute_action env a results s") simp
  have "\<exists>rs. fst (execute_loop env rest (results @ [r]) s1) = (results @ [r]) @ rs
          \<and> list_all2 Q rest rs"
    by (rule Cons.IH) (simp add: Cons.prems)
  then obtain rs where
    "fst (execute_loop env rest (results @ [r]) s1) = (results @ [r]) @ rs" "list_all2 Q rest rs"
    by blast
  with s1 r(2) have "fst (execute_loop env (a # rest) results s) = results @ (r # rs)
      \<and> list_all2 Q (a # rest) (r # rs)" by simp
  then show ?case by blast
qed

lemma execute_loop_calls_grow:
  "\<exists>cs. calls (snd (execute_loop env actions results s)) = calls s @ cs"
proof (induction actions arbitrary: results s)
  case Nil
  show ?case by simp
next
  case (Cons a rest)
  show ?case
  proof (cases rule: execute_action_cases [of a env s results])
    case (rejected m w)
    with Cons.IH [of "results @ [failure_entry a m]"
        "\<lparr>world = w, calls = calls s @ [driver_call a]\<rparr>"]
    show ?thesis by auto
  next
    case (resolved u w1 x w2)
    with Cons.IH [of "results @ [success_entry a]"
        "\<lparr>world = w2, calls = calls s @ [driver_call a, WaitForNetworkIdle 3000]\<rparr>"]
    show ?thesis by auto
  next
    case (skipped x w2)
    with Cons.IH [of results "\<lparr>world = w2, calls = calls s @ [WaitForNetworkIdle 3000]\<rparr>"]
    show ?thesis by auto
  qed
qed

lemma execute_loop_dispatches:
  "a \<in> set actions \<Longrightarrow> known_type a \<Longrightarrow>
   driver_call a \<in> set (calls (snd (execute_loop env actions results s)))"
proof (induction actions arbitrary: results s)
  case Nil
  then show ?case by simp
next
  case (Cons b rest)
  obtain results1 s1 where step: "execute_action env b results s = (results1, s1)"
    by (cases "execute_action env b results s")
  show ?case
  proof (cases "a = b")
    case True
    with Cons.prems step have "driver_call a \<in> set (calls s1)"
      by (cases rule: execute_action_cases [of b env s results]) auto
    moreover obtain cs where "calls (snd (execute_loop env rest results1 s1)) = calls s1 @ cs"
      using execute_loop_calls_grow by blast
    ultimately show ?thesis using step by simp
  next
    case False
    with Cons.prems have "a \<in> set rest" by simp
    from Cons.IH [OF this Cons.prems(2)] step show ?thesis by simp
  qed
qed

lemma execute_loop_wait_or_failure:
  "length (filter (\<lambda>c. c = WaitForNetworkIdle 3000) (calls (snd (execute_loop env actions results s))))
     + length (filter failed (fst (execute_loop env actions results s)))
   = length (filter (\<lambda>c. c = WaitForNetworkIdle 3000) (calls s))
     + length (filter failed results) + length actions"
proof (induction actions arbitrary: results s)
  case Nil
  show ?case by simp
next
  case (Cons a rest)
  show ?case
    by (cases rule: execute_action_cases [of a env s results])
       (simp_all add: Cons.IH failed_failure_entry not_failed_success_entry driver_call_not_wait)
qed

lemma filter_length_eq_iff: "(length (filter P xs) = length xs) = (\<forall>x \<in> set xs. P x)"
proof
  assume "length (filter P xs) = length xs"
  then show "\<forall>x \<in> set xs. P x"
    using length_filter_less [of _ xs P] by fastforce
next
  assume "\<forall>x \<in> set xs. P x"
  then show "length (filter P xs) = length xs" by simp
qed


lemma driver_call_null:
  "known_type a \<Longrightarrow> selector a = None \<Longrightarrow>
   driver_call a \<in> {Click None, TypeInto None (value' a), EvaluateSubmit None}"
  by (auto simp: driver_call_def known_type_def)

lemma execute_loop_strings:
  "(\<forall>r \<in> set results. \<exists>d. r = JString d) \<Longrightarrow>
   \<forall>r \<in> set (fst (execute_loop env actions results s)). \<exists>d. r = JString d"
proof (induction actions arbitrary: results s)
  case Nil
  then show ?case by simp
next
  case (Cons a rest)
  show ?case
  proof (cases rule: execute_action_cases [of a env s results])
    case (rejected m w)
    have "\<forall>r \<in> set (results @ [failure_entry a m]). \<exists>d. r = JString d"
      using Cons.prems by (simp add: failure_entry_def)
    from Cons.IH [OF this] rejected(3) show ?thesis by simp
  next
    case (resolved u w1 x w2)
    have "\<forall>r \<in> set (results @ [success_entry a]). \<exists>d. r = JString d"
      using Cons.prems by (simp add: success_entry_def)
    from Cons.IH [OF this] resolved(4) show ?thesis by simp
  next
    case (skipped x w2)
    from Cons.IH [OF Cons.prems] skipped(3) show ?thesis by simp
  qed
qed

lemma string_not_ActionResult: "\<not> is_ActionResult (JString d)"
  by (simp add: is_ActionResult_def)

section \<open>Facts about the stub environment\<close>

lemma stub_wait: "waitForNetworkIdle stub_env n w = (Inl ''Timed out after waiting 3000ms'', w)"
  by (simp add: stub_env_def)

lemma stub_driver_op:
  "known_type a \<Longrightarrow> driver_op stub_env a w = stub_target (selector a) w"
  by (simp add: driver_op_def stub_env_def)

lemma stub_rejects_null:
  "\<forall>b v. known_type b \<and> selector b = None \<longrightarrow> (\<exists>e v'. driver_op stub_env b v = (Inl e, v'))"
  by (simp add: stub_driver_op stub_target_def)

lemma stub_goto:
  "goto stub_env a t w =
     (if a = ''http://down.test'' then (Inl ''Navigation timeout of 8000 ms exceeded'', w)
      else (Inr (), w))"
  by (simp add: stub_env_def)

lemma stub_content:
  "evaluate_content stub_env w =
     (Inr \<lparr>text' = ''Sign in'', links = ''[]'', inputs = ''[]'', buttons = ''[]''\<rparr>, w)"
  by (simp add: stub_env_def)

lemma stub_chat: "createChatCompletion stub_env r w = (Inr [Some stub_plan], w)"
  by (simp add: stub_env_def)

lemma stub_click: "click stub_env sel w = stub_target sel w"
  by (simp add: stub_env_def)

lemma stub_session:
  "launch stub_env w = (Inr (), w)" "newPage stub_env w = (Inr (), w)"
  "browser_close stub_env w = (Inr (), w)"
  by (simp_all add: stub_env_def)

lemma stub_plan_parsed:
  "parseAnalysis (Some stub_plan)
     = Inr [\<lparr>type = ''click'', selector = Some ''#login-btn'', value' = None\<rparr>]"
  by (simp add: parseAnalysis_def stub_plan_def split_newline_def newline_def
        extractSelector_def match_at_def dquote_def)

section \<open>The parser: one action per keyword line\<close>

text \<open>
  C3. On every string the parser returns an array and throws nothing. Every text has
  lines: strings free of the newline character which, each followed by a newline, make
  up the text followed by a newline. Whatever the lines of the text are, the parser's
  array holds, in line order, exactly one action for each line that has click, type or
  submit as a substring (a line is some prefix, then the keyword, then some suffix), and
  nothing for any other line: the action is a click when the line has click, else a type
  when it has type, else a submit. So the number of actions is the number of lines with
  a keyword, and the empty text gives the empty array.
\<close>

theorem parseAnalysis_one_action_per_keyword_line:
  "(\<exists>lines. (\<forall>l \<in> set lines. CHR 0x0A \<notin> set l)
        \<and> concat (map (\<lambda>l. l @ [CHR 0x0A]) lines) = s @ [CHR 0x0A])
   \<and> ((\<forall>l \<in> set lines. CHR 0x0A \<notin> set l)
        \<and> concat (map (\<lambda>l. l @ [CHR 0x0A]) lines) = s @ [CHR 0x0A]
      \<longrightarrow> parseAnalysis (Some s)
            = Inr (map (\<lambda>l. if sublist ''click'' l
                     then \<lparr>type = ''click'', selector = extractSelector l, value' = None\<rparr>
                     else if sublist ''type'' l
                     then \<lparr>type = ''type'', selector = extractSelector l,
                            value' = Some (extractValue l)\<rparr>
                     else \<lparr>type = ''submit'', selector = extractSelector l, value' = None\<rparr>)
                (filter (\<lambda>l. sublist ''click'' l \<or> sublist ''type'' l \<or> sublist ''submit'' l)
                   lines))
          \<and> (\<exists>actions. parseAnalysis (Some s) = Inr actions
                \<and> length actions
                    = length (filter (\<lambda>l. sublist ''click'' l \<or> sublist ''type'' l
                                \<or> sublist ''submit'' l) lines)))
   \<and> parseAnalysis (Some []) = Inr []"
proof (intro conjI impI)
  have "(\<forall>l \<in> set (split_newline s). newline \<notin> set l)
      \<and> concat (map (\<lambda>l. l @ [newline]) (split_newline s)) = s @ [newline]"
    using split_from_no_newline [of "[]" s] split_from_concat [of "[]" s]
    by (simp add: split_newline_def)
  then show "\<exists>lines. (\<forall>l \<in> set lines. CHR 0x0A \<notin> set l)
        \<and> concat (map (\<lambda>l. l @ [CHR 0x0A]) lines) = s @ [CHR 0x0A]"
    unfolding newline_def by blast
next
  assume h: "(\<forall>l \<in> set lines. CHR 0x0A \<notin> set l)
        \<and> concat (map (\<lambda>l. l @ [CHR 0x0A]) lines) = s @ [CHR 0x0A]"
  then have "split_newline s = lines"
    using lines_unique [of lines s] by (simp add: newline_def)
  then have p: "parseAnalysis (Some s) = Inr (parse_lines lines [])"
    by (simp add: parseAnalysis_def)
  then show full: "parseAnalysis (Some s)
            = Inr (map (\<lambda>l. if sublist ''click'' l
                     then \<lparr>type = ''click'', selector = extractSelector l, value' = None\<rparr>
                     else if sublist ''type'' l
                     then \<lparr>type = ''type'', selector = extractSelector l,
                            value' = Some (extractValue l)\<rparr>
                     else \<lparr>type = ''submit'', selector = extractSelector l, value' = None\<rparr>)
                (filter (\<lambda>l. sublist ''click'' l \<or> sublist ''type'' l \<or> sublist ''submit'' l)
                   lines))"
    by (simp only: parse_lines_filter_map)
  then show "\<exists>actions. parseAnalysis (Some s) = Inr actions
                \<and> length actions
                    = length (filter (\<lambda>l. sublist ''click'' l \<or> sublist ''type'' l
                                \<or> sublist ''submit'' l) lines)"
    by simp
next
  show "parseAnalysis (Some []) = Inr []"
    by (simp add: parseAnalysis_def split_newline_def)
qed

text \<open>
  The theorem on a text of five lines, three of which hold a keyword: the parser returns
  three actions, one for each of these lines, in their order.
\<close>

theorem parseAnalysis_one_action_per_keyword_line_witness:
  \<open>parseAnalysis (Some (''Plan:'' @ [CHR 0x0A] @ ''1. click id="a"'' @ [CHR 0x0A]
        @ ''2. type 'q' value="v"'' @ [CHR 0x0A] @ ''then rest'' @ [CHR 0x0A] @ ''3. submit''))
     = Inr [\<lparr>type = ''click'', selector = Some ''#a'', value' = None\<rparr>,
            \<lparr>type = ''type'', selector = Some ''text="q"'', value' = Some ''v''\<rparr>,
            \<lparr>type = ''submit'', selector = None, value' = None\<rparr>]
   \<and> (\<exists>actions. parseAnalysis (Some (''Plan:'' @ [CHR 0x0A] @ ''1. click id="a"'' @ [CHR 0x0A]
        @ ''2. type 'q' value="v"'' @ [CHR 0x0A] @ ''then rest'' @ [CHR 0x0A] @ ''3. submit''))
          = Inr actions
        \<and> length actions = 3)\<close>
proof -
  let ?lines = \<open>[''Plan:'', ''1. click id="a"'', ''2. type 'q' value="v"'', ''then rest'',
      ''3. submit'']\<close>
  let ?s = \<open>''Plan:'' @ [CHR 0x0A] @ ''1. click id="a"'' @ [CHR 0x0A]
        @ ''2. type 'q' value="v"'' @ [CHR 0x0A] @ ''then rest'' @ [CHR 0x0A] @ ''3. submit''\<close>
  let ?kw = "\<lambda>l. sublist ''click'' l \<or> sublist ''type'' l \<or> sublist ''submit'' l"
  let ?act = "\<lambda>l. if sublist ''click'' l
                     then \<lparr>type = ''click'', selector = extractSelector l, value' = None\<rparr>
                     else if sublist ''type'' l
                     then \<lparr>type = ''type'', selector = extractSelector l,
                            value' = Some (extractValue l)\<rparr>
                     else \<lparr>type = ''submit'', selector = extractSelector l, value' = None\<rparr>"
  have h: "(\<forall>l \<in> set ?lines. CHR 0x0A \<notin> set l)
      \<and> concat (map (\<lambda>l. l @ [CHR 0x0A]) ?lines) = ?s @ [CHR 0x0A]"
    by simp
  have v: \<open>map ?act (filter ?kw ?lines)
      = [\<lparr>type = ''click'', selector = Some ''#a'', value' = None\<rparr>,
         \<lparr>type = ''type'', selector = Some ''text="q"'', value' = Some ''v''\<rparr>,
         \<lparr>type = ''submit'', selector = None, value' = None\<rparr>]\<close>
    by (simp add: includes_sublist [symmetric] extractSelector_def extractValue_def match_at_def
          dquote_def squote_def)
  have n: "length (filter ?kw ?lines) = 3"
    by (simp add: includes_sublist [symmetric])
  have b: "parseAnalysis (Some ?s) = Inr (map ?act (filter ?kw ?lines))
      \<and> (\<exists>actions. parseAnalysis (Some ?s) = Inr actions
            \<and> length actions = length (filter ?kw ?lines))"
    by (rule parseAnalysis_one_action_per_keyword_line
          [where lines = "?lines" and s = "?s", THEN conjunct2, THEN conjunct1, THEN mp, OF h])
  from b show ?thesis unfolding v n by blast
qed

section \<open>The parser: the order in which a selector is resolved\<close>

text \<open>
  C5, as amended. The selector of a line is resolved in this order. If the line has an
  \<^verbatim>\<open>id="..."\<close> pattern, the selector is \<^verbatim>\<open>#\<close> followed by the text of the first such pattern,
  whatever else the line holds. Else if it has a \<^verbatim>\<open>class="..."\<close> pattern, the selector is
  \<^verbatim>\<open>.\<close> followed by the text of the first one. Else if it has a single-quoted literal, the
  selector is \<^verbatim>\<open>text="..."\<close> around the first one. Else it is \<^verbatim>\<open>null\<close>. So a line with both
  an id and a class pattern resolves to the id form, and a line that contains the keyword
  click and whose first id pattern is \<^verbatim>\<open>id="foo"\<close> parses to a click action with the
  selector \<^verbatim>\<open>#foo\<close>.
\<close>

theorem extractSelector_order:
  "(first_occurrence (''id='' @ [dquote]) dquote line g
      \<longrightarrow> extractSelector line = Some (''#'' @ g))
   \<and> (no_occurrence (''id='' @ [dquote]) dquote line
        \<and> first_occurrence (''class='' @ [dquote]) dquote line g
      \<longrightarrow> extractSelector line = Some (''.'' @ g))
   \<and> (no_occurrence (''id='' @ [dquote]) dquote line
        \<and> no_occurrence (''class='' @ [dquote]) dquote line
        \<and> first_occurrence [squote] squote line g
      \<longrightarrow> extractSelector line = Some (''text='' @ [dquote] @ g @ [dquote]))
   \<and> (no_occurrence (''id='' @ [dquote]) dquote line
        \<and> no_occurrence (''class='' @ [dquote]) dquote line
        \<and> no_occurrence [squote] squote line
      \<longrightarrow> extractSelector line = None)
   \<and> (occurs_at (''id='' @ [dquote]) dquote line pre1 g1
        \<and> occurs_at (''class='' @ [dquote]) dquote line pre2 g2
      \<longrightarrow> (\<exists>g0. first_occurrence (''id='' @ [dquote]) dquote line g0
                \<and> extractSelector line = Some (''#'' @ g0)))
   \<and> (includes_sub line ''click'' \<and> first_occurrence (''id='' @ [dquote]) dquote line ''foo''
      \<longrightarrow> parse_lines [line] [] = [\<lparr>type = ''click'', selector = Some ''#foo'', value' = None\<rparr>])"
proof (intro conjI impI)
  assume "first_occurrence (''id='' @ [dquote]) dquote line g"
  then have "regex_group (''id='' @ [dquote]) dquote line = Some g"
    by (simp only: regex_group_Some_iff)
  then show "extractSelector line = Some (''#'' @ g)"
    by (simp add: extractSelector_def)
next
  assume "no_occurrence (''id='' @ [dquote]) dquote line
        \<and> first_occurrence (''class='' @ [dquote]) dquote line g"
  then have "regex_group (''id='' @ [dquote]) dquote line = None"
    "regex_group (''class='' @ [dquote]) dquote line = Some g"
    by (simp_all only: regex_group_Some_iff regex_group_None_iff)
  then show "extractSelector line = Some (''.'' @ g)"
    by (simp add: extractSelector_def)
next
  assume "no_occurrence (''id='' @ [dquote]) dquote line
        \<and> no_occurrence (''class='' @ [dquote]) dquote line
        \<and> first_occurrence [squote] squote line g"
  then have "regex_group (''id='' @ [dquote]) dquote line = None"
    "regex_group (''class='' @ [dquote]) dquote line = None"
    "regex_group [squote] squote line = Some g"
    by (simp_all only: regex_group_Some_iff regex_group_None_iff)
  then show "extractSelector line = Some (''text='' @ [dquote] @ g @ [dquote])"
    by (simp add: extractSelector_def)
next
  assume "no_occurrence (''id='' @ [dquote]) dquote line
        \<and> no_occurrence (''class='' @ [dquote]) dquote line
        \<and> no_occurrence [squote] squote line"
  then have "regex_group (''id='' @ [dquote]) dquote line = None"
    "regex_group (''class='' @ [dquote]) dquote line = None"
    "regex_group [squote] squote line = None"
    by (simp_all only: regex_group_None_iff)
  then show "extractSelector line = None"
    by (simp add: extractSelector_def)
next
  assume "occurs_at (''id='' @ [dquote]) dquote line pre1 g1
        \<and> occurs_at (''class='' @ [dquote]) dquote line pre2 g2"
  then have "occurs_at (''id='' @ [dquote]) dquote line pre1 g1" by simp
  from occurrence_has_first [OF this] obtain g0 where
    g0: "first_occurrence (''id='' @ [dquote]) dquote line g0"
        "regex_group (''id='' @ [dquote]) dquote line = Some g0" by blast
  from g0(2) have "extractSelector line = Some (''#'' @ g0)"
    by (simp add: extractSelector_def)
  with g0(1) show "\<exists>g0. first_occurrence (''id='' @ [dquote]) dquote line g0
                \<and> extractSelector line = Some (''#'' @ g0)" by blast
next
  assume a: "includes_sub line ''click'' \<and> first_occurrence (''id='' @ [dquote]) dquote line ''foo''"
  then have "regex_group (''id='' @ [dquote]) dquote line = Some ''foo''"
    by (simp only: regex_group_Some_iff)
  then have "extractSelector line = Some ''#foo''"
    by (simp add: extractSelector_def)
  with a show "parse_lines [line] [] = [\<lparr>type = ''click'', selector = Some ''#foo'', value' = None\<rparr>]"
    by simp
qed

text \<open>The theorem at four lines, one for each way the selector is resolved.\<close>

theorem extractSelector_order_witness:
  \<open>extractSelector ''click id="foo" class="bar"'' = Some ''#foo''
   \<and> extractSelector ''press class="bar" or 'OK' '' = Some ''.bar''
   \<and> extractSelector ''press 'OK' twice'' = Some ''text="OK"''
   \<and> extractSelector ''press it'' = None
   \<and> (\<exists>g0. first_occurrence (''id='' @ [dquote]) dquote ''click id="foo" class="bar"'' g0
          \<and> extractSelector ''click id="foo" class="bar"'' = Some (''#'' @ g0))
   \<and> parse_lines [''click id="foo" class="bar"''] []
       = [\<lparr>type = ''click'', selector = Some ''#foo'', value' = None\<rparr>]\<close>
proof -
  have a1: \<open>first_occurrence (''id='' @ [dquote]) dquote ''click id="foo" class="bar"'' ''foo''\<close>
    by (simp add: regex_group_Some_iff [symmetric] match_at_def dquote_def)
  have a2: \<open>no_occurrence (''id='' @ [dquote]) dquote ''press class="bar" or 'OK' ''
            \<and> first_occurrence (''class='' @ [dquote]) dquote ''press class="bar" or 'OK' '' ''bar''\<close>
    by (simp add: regex_group_Some_iff [symmetric] regex_group_None_iff [symmetric]
          match_at_def dquote_def)
  have a3: \<open>no_occurrence (''id='' @ [dquote]) dquote ''press 'OK' twice''
            \<and> no_occurrence (''class='' @ [dquote]) dquote ''press 'OK' twice''
            \<and> first_occurrence [squote] squote ''press 'OK' twice'' ''OK''\<close>
    by (simp add: regex_group_Some_iff [symmetric] regex_group_None_iff [symmetric]
          match_at_def dquote_def squote_def)
  have a4: \<open>no_occurrence (''id='' @ [dquote]) dquote ''press it''
            \<and> no_occurrence (''class='' @ [dquote]) dquote ''press it''
            \<and> no_occurrence [squote] squote ''press it''\<close>
    by (simp add: regex_group_None_iff [symmetric] match_at_def dquote_def squote_def)
  have a5: \<open>occurs_at (''id='' @ [dquote]) dquote ''click id="foo" class="bar"'' ''click '' ''foo''
            \<and> occurs_at (''class='' @ [dquote]) dquote ''click id="foo" class="bar"''
                 ''click id="foo" '' ''bar''\<close>
    by (simp add: occurs_at_def dquote_def)
  have a6: \<open>includes_sub ''click id="foo" class="bar"'' ''click''
            \<and> first_occurrence (''id='' @ [dquote]) dquote ''click id="foo" class="bar"'' ''foo''\<close>
    using a1 by simp
  have b1: \<open>extractSelector ''click id="foo" class="bar"'' = Some ''#foo''\<close>
    using extractSelector_order [where line = \<open>''click id="foo" class="bar"''\<close> and g = "''foo''"] a1
    by simp
  have b2: \<open>extractSelector ''press class="bar" or 'OK' '' = Some ''.bar''\<close>
    using extractSelector_order [where line = \<open>''press class="bar" or 'OK' ''\<close> and g = "''bar''"] a2
    by simp
  have b3: \<open>extractSelector ''press 'OK' twice'' = Some ''text="OK"''\<close>
    using extractSelector_order [where line = \<open>''press 'OK' twice''\<close> and g = "''OK''"] a3
    by (simp add: dquote_def)
  have b4: \<open>extractSelector ''press it'' = None\<close>
    using extractSelector_order [where line = \<open>''press it''\<close>] a4
    by simp
  have b5: \<open>\<exists>g0. first_occurrence (''id='' @ [dquote]) dquote ''click id="foo" class="bar"'' g0
          \<and> extractSelector ''click id="foo" class="bar"'' = Some (''#'' @ g0)\<close>
    using extractSelector_order [where line = \<open>''click id="foo" class="bar"''\<close>
        and ?pre1.0 = "''click ''" and ?g1.0 = "''foo''"
        and ?pre2.0 = \<open>''click id="foo" ''\<close> and ?g2.0 = "''bar''"] a5
    by blast
  have b6: \<open>parse_lines [''click id="foo" class="bar"''] []
       = [\<lparr>type = ''click'', selector = Some ''#foo'', value' = None\<rparr>]\<close>
    using extractSelector_order [where line = \<open>''click id="foo" class="bar"''\<close>] a6
    by blast
  from b1 b2 b3 b4 b5 b6 show ?thesis by blast
qed

text \<open>
  C5 as stated fails: a line can contain \<^verbatim>\<open>id="foo"\<close> and the keyword click and parse to
  another selector, because the match of a regular expression is the leftmost one and
  here an earlier id pattern comes first.
\<close>

theorem extractSelector_id_foo_counterexample:
  \<open>includes_sub ''click id="bar" id="foo"'' ''id="foo"''
   \<and> includes_sub ''click id="bar" id="foo"'' ''click''
   \<and> parseAnalysis (Some ''click id="bar" id="foo"'')
       = Inr [\<lparr>type = ''click'', selector = Some ''#bar'', value' = None\<rparr>]
   \<and> parseAnalysis (Some ''click id="bar" id="foo"'')
       \<noteq> Inr [\<lparr>type = ''click'', selector = Some ''#foo'', value' = None\<rparr>]\<close>
  by (simp add: parseAnalysis_def split_newline_def newline_def extractSelector_def match_at_def dquote_def)

section \<open>The executor: an action with no selector\<close>

text \<open>
  C1, as amended. The executor has no test for a null selector. For every action of the
  sequence whose type is click, type or submit and whose selector is \<^verbatim>\<open>null\<close>, it makes
  the corresponding call (click, type, or the submit in the page) with the null target.
  When that call throws, the catch block records the failure entry of the action, which
  is a failed result, and nothing is raised. So for a driver that rejects every null
  target, and a sequence of actions of the three types, the executor returns one result
  for each action and the result of each action with a null selector is a failure: the
  actions after it are executed as well.
\<close>

theorem null_selector_reaches_driver:
  "(a \<in> set actions \<and> known_type a \<and> selector a = None
      \<longrightarrow> driver_call a \<in> set (calls (snd (executeActions env actions s)))
          \<and> driver_call a \<in> {Click None, TypeInto None (value' a), EvaluateSubmit None})
   \<and> (known_type a \<and> selector a = None \<and> driver_op env a (world s) = (Inl m, w)
      \<longrightarrow> execute_action env a results s
            = (results @ [failure_entry a m], \<lparr>world = w, calls = calls s @ [driver_call a]\<rparr>)
          \<and> failed (failure_entry a m))
   \<and> ((\<forall>b \<in> set actions. known_type b)
        \<and> (\<forall>b v. known_type b \<and> selector b = None \<longrightarrow> (\<exists>e v'. driver_op env b v = (Inl e, v')))
      \<longrightarrow> length (fst (executeActions env actions s)) = length actions
          \<and> list_all2 (\<lambda>b r. selector b = None \<longrightarrow> failed r)
                actions (fst (executeActions env actions s)))"
proof (intro conjI impI)
  assume h: "a \<in> set actions \<and> known_type a \<and> selector a = None"
  then show "driver_call a \<in> set (calls (snd (executeActions env actions s)))"
    by (simp add: executeActions_def execute_loop_dispatches)
  from h show "driver_call a \<in> {Click None, TypeInto None (value' a), EvaluateSubmit None}"
    by (simp only: driver_call_null)
next
  assume h: "known_type a \<and> selector a = None \<and> driver_op env a (world s) = (Inl m, w)"
  then show "execute_action env a results s
            = (results @ [failure_entry a m], \<lparr>world = w, calls = calls s @ [driver_call a]\<rparr>)"
    by (simp add: execute_action_rejected)
  show "failed (failure_entry a m)" by (rule failed_failure_entry)
next
  assume h: "(\<forall>b \<in> set actions. known_type b)
        \<and> (\<forall>b v. known_type b \<and> selector b = None \<longrightarrow> (\<exists>e v'. driver_op env b v = (Inl e, v')))"
  have step: "\<exists>r. fst (execute_action env b res t) = res @ [r] \<and> (selector b = None \<longrightarrow> failed r)"
    if b: "b \<in> set actions" for b res t
  proof (cases rule: execute_action_cases [of b env t res])
    case (rejected e v)
    then show ?thesis by (simp add: failed_failure_entry)
  next
    case (resolved u w1 x w2)
    have ns: "selector b \<noteq> None"
    proof
      assume "selector b = None"
      with h resolved(1) obtain e v' where "driver_op env b (world t) = (Inl e, v')" by blast
      with resolved(2) show False by simp
    qed
    from resolved(4) ns show ?thesis by auto
  next
    case (skipped x w2)
    with h b show ?thesis by blast
  qed
  have "\<exists>rs. fst (execute_loop env actions [] s) = [] @ rs
          \<and> list_all2 (\<lambda>b r. selector b = None \<longrightarrow> failed r) actions rs"
    by (rule execute_loop_all2) (rule step)
  then show l: "list_all2 (\<lambda>b r. selector b = None \<longrightarrow> failed r)
                actions (fst (executeActions env actions s))"
    by (auto simp: executeActions_def)
  then show "length (fst (executeActions env actions s)) = length actions"
    by (simp add: list_all2_lengthD)
qed

text \<open>
  The theorem on the stub environment, which rejects a null target: a type action with
  no selector followed by a click on an element of the page.
\<close>

theorem null_selector_reaches_driver_witness:
  "TypeInto None (Some ''hello'')
     \<in> set (calls (snd (executeActions stub_env
          [\<lparr>type = ''type'', selector = None, value' = Some ''hello''\<rparr>,
           \<lparr>type = ''click'', selector = Some ''#a'', value' = None\<rparr>] (start [''#a'']))))
   \<and> execute_action stub_env \<lparr>type = ''type'', selector = None, value' = Some ''hello''\<rparr> []
        (start [''#a''])
      = ([JString ''Failed to execute type: No node found for selector: null''],
         \<lparr>world = [''#a''], calls = [TypeInto None (Some ''hello'')]\<rparr>)
   \<and> length (fst (executeActions stub_env
          [\<lparr>type = ''type'', selector = None, value' = Some ''hello''\<rparr>,
           \<lparr>type = ''click'', selector = Some ''#a'', value' = None\<rparr>] (start [''#a''])))
      = 2
   \<and> list_all2 (\<lambda>b r. selector b = None \<longrightarrow> failed r)
          [\<lparr>type = ''type'', selector = None, value' = Some ''hello''\<rparr>,
           \<lparr>type = ''click'', selector = Some ''#a'', value' = None\<rparr>]
          (fst (executeActions stub_env
          [\<lparr>type = ''type'', selector = None, value' = Some ''hello''\<rparr>,
           \<lparr>type = ''click'', selector = Some ''#a'', value' = None\<rparr>] (start [''#a''])))"
proof -
  let ?t = "\<lparr>type = ''type'', selector = None, value' = Some ''hello''\<rparr>"
  let ?c = "\<lparr>type = ''click'', selector = Some ''#a'', value' = None\<rparr>"
  have h1: "?t \<in> set [?t, ?c] \<and> known_type ?t \<and> selector ?t = None"
    by (simp add: known_type_def)
  have h2: "known_type ?t \<and> selector ?t = None
      \<and> driver_op stub_env ?t (world (start [''#a'']))
          = (Inl ''No node found for selector: null'', [''#a''])"
    by (simp add: known_type_def stub_driver_op stub_target_def no_node_def template_def start_def)
  have h3: "(\<forall>b \<in> set [?t, ?c]. known_type b)
      \<and> (\<forall>b v. known_type b \<and> selector b = None
            \<longrightarrow> (\<exists>e v'. driver_op stub_env b v = (Inl e, v')))"
    using stub_rejects_null by (simp add: known_type_def)
  have b1: "driver_call ?t \<in> set (calls (snd (executeActions stub_env [?t, ?c] (start [''#a'']))))"
    using null_selector_reaches_driver [where a = "?t" and actions = "[?t, ?c]" and env = stub_env
        and s = "start [''#a'']"] h1
    by blast
  have b2: "execute_action stub_env ?t [] (start [''#a''])
      = ([] @ [failure_entry ?t ''No node found for selector: null''],
         \<lparr>world = [''#a''], calls = calls (start [''#a'']) @ [driver_call ?t]\<rparr>)"
    using null_selector_reaches_driver [where a = "?t" and env = stub_env
        and s = "start [''#a'']" and m = "''No node found for selector: null''"
        and w = "[''#a'']" and results = "[]"] h2
    by blast
  have b3: "length (fst (executeActions stub_env [?t, ?c] (start [''#a'']))) = length [?t, ?c]
      \<and> list_all2 (\<lambda>b r. selector b = None \<longrightarrow> failed r) [?t, ?c]
           (fst (executeActions stub_env [?t, ?c] (start [''#a''])))"
    using null_selector_reaches_driver [where actions = "[?t, ?c]" and env = stub_env
        and s = "start [''#a'']"] h3
    by blast
  from b1 b2 b3 show ?thesis
    by (simp add: driver_call_def failure_entry_def start_def)
qed

text \<open>
  C1 as stated fails: the line of the specification's example parses to a type action with
  a null selector, and executing that action makes the call \<^verbatim>\<open>page.type(null, "hello")\<close>.
\<close>

theorem null_selector_counterexample:
  \<open>parseAnalysis (Some ''type value="hello"'')
     = Inr [\<lparr>type = ''type'', selector = None, value' = Some ''hello''\<rparr>]
   \<and> TypeInto None (Some ''hello'')
       \<in> set (calls (snd (executeActions stub_env
            [\<lparr>type = ''type'', selector = None, value' = Some ''hello''\<rparr>] (start []))))\<close>
  by (simp add: parseAnalysis_def split_newline_def newline_def extractSelector_def
        extractValue_def match_at_def dquote_def squote_def
        executeActions_def execute_action_def invoke_def start_def stub_env_def stub_target_def)

section \<open>The executor: one result for each action, whatever fails\<close>



section \<open>The executor: what a result is\<close>

text \<open>
  C6, as amended. Every element of the executor's output is a plain string; none is a
  record with a description and a succeeded flag. A click whose call returns is recorded
  as the string \<^verbatim>\<open>Clicked\<close> followed by the selector, which is not a failure string.
\<close>

theorem results_are_strings:
  "(\<forall>r \<in> set (fst (executeActions env actions s)). (\<exists>d. r = JString d) \<and> \<not> is_ActionResult r)
   \<and> (type a = ''click'' \<and> click env (selector a) (world s) = (Inr u, w)
      \<longrightarrow> fst (execute_action env a results s)
            = results @ [JString (''Clicked '' @ template (selector a))]
          \<and> \<not> failed (JString (''Clicked '' @ template (selector a))))"
proof (intro conjI impI)
  have "\<forall>r \<in> set (fst (execute_loop env actions [] s)). \<exists>d. r = JString d"
    by (rule execute_loop_strings) simp
  then show "\<forall>r \<in> set (fst (executeActions env actions s)).
      (\<exists>d. r = JString d) \<and> \<not> is_ActionResult r"
    by (auto simp: executeActions_def string_not_ActionResult)
next
  assume h: "type a = ''click'' \<and> click env (selector a) (world s) = (Inr u, w)"
  obtain x w2 where "waitForNetworkIdle env 3000 w = (x, w2)"
    by (cases "waitForNetworkIdle env 3000 w")
  with h show "fst (execute_action env a results s)
            = results @ [JString (''Clicked '' @ template (selector a))]"
    by (simp add: execute_action_def invoke_eq settle_eq)
  show "\<not> failed (JString (''Clicked '' @ template (selector a)))"
    by (simp add: failed_def)
qed

text \<open>The theorem on the stub environment, for a click on an element of the page.\<close>

theorem results_are_strings_witness:
  "(\<exists>d. JString ''Clicked #a'' = JString d) \<and> \<not> is_ActionResult (JString ''Clicked #a'')
   \<and> fst (execute_action stub_env \<lparr>type = ''click'', selector = Some ''#a'', value' = None\<rparr> []
         (start [''#a'']))
      = [JString ''Clicked #a'']
   \<and> \<not> failed (JString ''Clicked #a'')"
proof -
  let ?c = "\<lparr>type = ''click'', selector = Some ''#a'', value' = None\<rparr>"
  have m: "JString ''Clicked #a'' \<in> set (fst (executeActions stub_env [?c] (start [''#a''])))"
    by (simp add: executeActions_def execute_action_def invoke_def settle_def start_def
          stub_env_def stub_target_def template_def)
  have h: "type ?c = ''click''
      \<and> click stub_env (selector ?c) (world (start [''#a''])) = (Inr (), [''#a''])"
    by (simp add: stub_env_def stub_target_def start_def)
  have b1: "(\<exists>d. JString ''Clicked #a'' = JString d) \<and> \<not> is_ActionResult (JString ''Clicked #a'')"
    using results_are_strings [where actions = "[?c]" and env = stub_env and s = "start [''#a'']"] m
    by blast
  have b2: "fst (execute_action stub_env ?c [] (start [''#a'']))
            = [] @ [JString (''Clicked '' @ template (selector ?c))]
          \<and> \<not> failed (JString (''Clicked '' @ template (selector ?c)))"
    using results_are_strings [where a = "?c" and env = stub_env and s = "start [''#a'']"
        and u = "()" and w = "[''#a'']" and results = "[]"] h
    by blast
  from b1 b2 show ?thesis by (simp add: template_def)
qed

text \<open>
  C6 as stated fails: the one result of a successful click is a string, not a record of
  the shape of the specification's \<^verbatim>\<open>ActionResult\<close>.
\<close>

theorem result_shape_counterexample:
  "fst (executeActions stub_env [\<lparr>type = ''click'', selector = Some ''#a'', value' = None\<rparr>]
         (start [''#a'']))
     = [JString ''Clicked #a'']
   \<and> \<not> is_ActionResult (JString ''Clicked #a'')"
  by (simp add: executeActions_def execute_action_def invoke_def settle_def start_def
        stub_env_def stub_target_def template_def is_ActionResult_def)

section \<open>The executor: the wait for the network\<close>

text \<open>
  C7 does not hold of the executor. The source announces the wait as made after each
  action, and after a call that returns the wait is made and its timeout is swallowed. But
  the wait is the last statement of the try block: on the stub environment, for a click
  whose call throws, the run records the failure entry and its only call is the click, so
  no wait for the network follows the failed action. For a click whose call returns, the
  wait follows the click, and although it times out the one result is the success entry.
\<close>

theorem no_wait_after_failed_action:
  "executeActions stub_env [\<lparr>type = ''click'', selector = Some ''#b'', value' = None\<rparr>]
       (start [''#a''])
     = ([JString ''Failed to execute click: No node found for selector: #b''],
        \<lparr>world = [''#a''], calls = [Click (Some ''#b'')]\<rparr>)
   \<and> WaitForNetworkIdle 3000 \<notin> set [Click (Some ''#b'')]
   \<and> executeActions stub_env [\<lparr>type = ''click'', selector = Some ''#a'', value' = None\<rparr>]
       (start [''#a''])
     = ([JString ''Clicked #a''],
        \<lparr>world = [''#a''], calls = [Click (Some ''#a''), WaitForNetworkIdle 3000]\<rparr>)
   \<and> waitForNetworkIdle stub_env 3000 [''#a''] = (Inl ''Timed out after waiting 3000ms'', [''#a''])"
  by (simp add: executeActions_def execute_action_def settle_def invoke_def start_def
        stub_env_def stub_target_def template_def no_node_def failure_entry_def)

section \<open>The executor: actions of another type\<close>

text \<open>
  C10. For an action whose type is none of click, type and submit, the executor records
  no result: the iteration only makes the wait for the network and leaves the results as
  they were, and the loop goes on. The number of results is the number of actions of a
  known type, so a sequence that holds an action of another type gives strictly fewer
  results than actions, and the results are as many as the actions exactly when every
  action has one of the three types. Every action the parser produces has one of them,
  so for the parser's output the executor returns one result for each action.
\<close>

theorem unknown_type_records_nothing:
  "(\<not> known_type a \<and> waitForNetworkIdle env 3000 (world s) = (x, w)
      \<longrightarrow> execute_action env a results s
            = (results, \<lparr>world = w, calls = calls s @ [WaitForNetworkIdle 3000]\<rparr>))
   \<and> length (fst (executeActions env actions s)) = length (filter known_type actions)
   \<and> ((\<exists>b \<in> set actions. \<not> known_type b)
      \<longrightarrow> length (fst (executeActions env actions s)) < length actions)
   \<and> ((length (fst (executeActions env actions s)) = length actions)
        = (\<forall>b \<in> set actions. known_type b))
   \<and> (parseAnalysis (Some plan) = Inr parsed
      \<longrightarrow> (\<forall>b \<in> set parsed. known_type b)
          \<and> length (fst (executeActions env parsed s)) = length parsed)"
proof -
  have len: "\<And>acts. length (fst (executeActions env acts s)) = length (filter known_type acts)"
    by (simp add: executeActions_def execute_loop_length)
  have c1: "\<not> known_type a \<and> waitForNetworkIdle env 3000 (world s) = (x, w)
      \<longrightarrow> execute_action env a results s
            = (results, \<lparr>world = w, calls = calls s @ [WaitForNetworkIdle 3000]\<rparr>)"
    by (simp add: execute_action_skipped)
  have c3: "(\<exists>b \<in> set actions. \<not> known_type b)
      \<longrightarrow> length (fst (executeActions env actions s)) < length actions"
    using length_filter_less [of _ actions known_type] by (auto simp: len)
  have c4: "(length (fst (executeActions env actions s)) = length actions)
        = (\<forall>b \<in> set actions. known_type b)"
    by (simp add: len filter_length_eq_iff)
  have c5: "parseAnalysis (Some plan) = Inr parsed
      \<longrightarrow> (\<forall>b \<in> set parsed. known_type b)
          \<and> length (fst (executeActions env parsed s)) = length parsed"
  proof
    assume "parseAnalysis (Some plan) = Inr parsed"
    then have "parsed = parse_lines (split_newline plan) []" by (simp add: parseAnalysis_def)
    then have k: "\<forall>b \<in> set parsed. known_type b" using parse_lines_known by simp
    then show "(\<forall>b \<in> set parsed. known_type b)
          \<and> length (fst (executeActions env parsed s)) = length parsed"
      by (simp add: len)
  qed
  from c1 len [of actions] c3 c4 c5 show ?thesis by blast
qed

text \<open>
  The theorem on the stub environment: a hover action alone, a hover action followed by
  a click, and the action parsed from the stub's plan.
\<close>

theorem unknown_type_records_nothing_witness:
  "execute_action stub_env \<lparr>type = ''hover'', selector = Some ''#menu'', value' = None\<rparr> []
      (start [''#menu''])
     = ([], \<lparr>world = [''#menu''], calls = [WaitForNetworkIdle 3000]\<rparr>)
   \<and> length (fst (executeActions stub_env
         [\<lparr>type = ''hover'', selector = Some ''#menu'', value' = None\<rparr>,
          \<lparr>type = ''click'', selector = Some ''#menu'', value' = None\<rparr>] (start [''#menu''])))
       < length [\<lparr>type = ''hover'', selector = Some ''#menu'', value' = None\<rparr>,
          \<lparr>type = ''click'', selector = Some ''#menu'', value' = None\<rparr>]
   \<and> length (fst (executeActions stub_env
         [\<lparr>type = ''click'', selector = Some ''#login-btn'', value' = None\<rparr>] (start [])))
       = length [\<lparr>type = ''click'', selector = Some ''#login-btn'', value' = None\<rparr>]"
proof -
  let ?hover = "\<lparr>type = ''hover'', selector = Some ''#menu'', value' = None\<rparr>"
  let ?click = "\<lparr>type = ''click'', selector = Some ''#menu'', value' = None\<rparr>"
  let ?login = "\<lparr>type = ''click'', selector = Some ''#login-btn'', value' = None\<rparr>"
  have h1: "\<not> known_type ?hover
      \<and> waitForNetworkIdle stub_env 3000 (world (start [''#menu'']))
          = (Inl ''Timed out after waiting 3000ms'', [''#menu''])"
    by (simp add: known_type_def stub_wait start_def)
  have h3: "\<exists>b \<in> set [?hover, ?click]. \<not> known_type b"
    by (simp add: known_type_def)
  have h5: "parseAnalysis (Some stub_plan) = Inr [?login]"
    by (simp add: parseAnalysis_def stub_plan_def split_newline_def newline_def
          extractSelector_def match_at_def dquote_def)
  have b1: "execute_action stub_env ?hover [] (start [''#menu''])
     = ([], \<lparr>world = [''#menu''], calls = [WaitForNetworkIdle 3000]\<rparr>)"
    using unknown_type_records_nothing [where a = "?hover" and env = stub_env
        and s = "start [''#menu'']" and x = "Inl ''Timed out after waiting 3000ms''"
        and w = "[''#menu'']" and results = "[]"] h1
    by (simp add: start_def)
  have b3: "length (fst (executeActions stub_env [?hover, ?click] (start [''#menu''])))
       < length [?hover, ?click]"
    using unknown_type_records_nothing [where actions = "[?hover, ?click]" and env = stub_env
        and s = "start [''#menu'']"] h3
    by blast
  have b5: "length (fst (executeActions stub_env [?login] (start []))) = length [?login]"
    using unknown_type_records_nothing [where plan = stub_plan and parsed = "[?login]"
        and env = stub_env and s = "start []"] h5
    by blast
  from b1 b3 b5 show ?thesis by blast
qed

section \<open>From a plan line to a result\<close>

text \<open>
  C4, as amended. The search for the keyword is case-sensitive. A plan text that contains
  the line \<^verbatim>\<open>1. click the button with id="login-btn"\<close>, with the keyword in lower case,
  parses to a list that holds the click action with the selector \<^verbatim>\<open>#login-btn\<close>; and when
  the click on that selector returns, executing the action records the string
  \<^verbatim>\<open>Clicked #login-btn\<close>, which is not a failure.
\<close>

theorem login_line_end_to_end:
  \<open>(''1. click the button with id="login-btn"'' \<in> set (split_newline plan)
      \<longrightarrow> (\<exists>actions. parseAnalysis (Some plan) = Inr actions
            \<and> \<lparr>type = ''click'', selector = Some ''#login-btn'', value' = None\<rparr> \<in> set actions))
   \<and> (click env (Some ''#login-btn'') (world s) = (Inr u, w)
      \<longrightarrow> fst (executeActions env
               [\<lparr>type = ''click'', selector = Some ''#login-btn'', value' = None\<rparr>] s)
            = [JString ''Clicked #login-btn'']
          \<and> \<not> failed (JString ''Clicked #login-btn''))\<close>
proof (intro conjI impI)
  assume \<open>''1. click the button with id="login-btn"'' \<in> set (split_newline plan)\<close>
  then have "\<lparr>type = ''click'', selector = Some ''#login-btn'', value' = None\<rparr>
      \<in> set (parse_lines (split_newline plan) [])"
    by (rule parse_lines_member) (simp only: login_line, simp)
  then show "\<exists>actions. parseAnalysis (Some plan) = Inr actions
            \<and> \<lparr>type = ''click'', selector = Some ''#login-btn'', value' = None\<rparr> \<in> set actions"
    by (simp add: parseAnalysis_def)
next
  assume h: "click env (Some ''#login-btn'') (world s) = (Inr u, w)"
  obtain x w2 where "waitForNetworkIdle env 3000 w = (x, w2)"
    by (cases "waitForNetworkIdle env 3000 w")
  with h show "fst (executeActions env
               [\<lparr>type = ''click'', selector = Some ''#login-btn'', value' = None\<rparr>] s)
            = [JString ''Clicked #login-btn'']"
    by (simp add: executeActions_def execute_action_def invoke_eq settle_eq template_def)
  show "\<not> failed (JString ''Clicked #login-btn'')"
    by (simp add: failed_def)
qed

text \<open>
  The theorem on a plan of three lines and on the stub environment, for a page where
  \<^verbatim>\<open>#login-btn\<close> matches an element.
\<close>

theorem login_line_end_to_end_witness:
  \<open>(\<exists>actions. parseAnalysis (Some (''Plan:'' @ [newline]
          @ ''1. click the button with id="login-btn"'' @ [newline] @ ''2. done'')) = Inr actions
        \<and> \<lparr>type = ''click'', selector = Some ''#login-btn'', value' = None\<rparr> \<in> set actions)
   \<and> fst (executeActions stub_env
           [\<lparr>type = ''click'', selector = Some ''#login-btn'', value' = None\<rparr>]
           (start [''#login-btn'']))
       = [JString ''Clicked #login-btn'']
   \<and> \<not> failed (JString ''Clicked #login-btn'')\<close>
proof -
  let ?plan = \<open>''Plan:'' @ [newline] @ ''1. click the button with id="login-btn"'' @ [newline]
      @ ''2. done''\<close>
  have h1: \<open>''1. click the button with id="login-btn"'' \<in> set (split_newline ?plan)\<close>
    by (simp add: split_newline_def newline_def)
  have h2: "click stub_env (Some ''#login-btn'') (world (start [''#login-btn'']))
      = (Inr (), [''#login-btn''])"
    by (simp add: stub_env_def stub_target_def start_def)
  have b1: "\<exists>actions. parseAnalysis (Some ?plan) = Inr actions
        \<and> \<lparr>type = ''click'', selector = Some ''#login-btn'', value' = None\<rparr> \<in> set actions"
    by (rule login_line_end_to_end [where plan = "?plan", THEN conjunct1, rule_format, OF h1])
  have b2: "fst (executeActions stub_env
           [\<lparr>type = ''click'', selector = Some ''#login-btn'', value' = None\<rparr>]
           (start [''#login-btn'']))
       = [JString ''Clicked #login-btn'']
     \<and> \<not> failed (JString ''Clicked #login-btn'')"
    using login_line_end_to_end [where env = stub_env and s = "start [''#login-btn'']"
        and u = "()" and w = "[''#login-btn'']"] h2 by blast
  from b1 b2 show ?thesis by blast
qed

text \<open>
  C4 as stated fails: the line of the claim writes the keyword with a capital letter, so
  it contains none of the three substrings and the parser drops it.
\<close>

theorem capital_Click_counterexample:
  \<open>parseAnalysis (Some ''1. Click the button with id="login-btn"'') = Inr []\<close>
  by (simp add: parseAnalysis_def split_newline_def newline_def)

section \<open>The orchestrator: one error for a failed stage\<close>

text \<open>
  C8. Whatever is thrown while the task navigates, extracts the content, asks for the
  plan or parses it, \<^verbatim>\<open>executeTask\<close> throws one error whose message is
  \<^verbatim>\<open>Task execution failed:\<close> followed by the message of the original error, and that error
  carries nothing else: no result of an action. This holds when the agent has no page,
  when the navigation rejects, when the extraction rejects, when the request to the
  language model rejects and when the model's content is \<^verbatim>\<open>null\<close>, on which the parser
  throws. When no stage fails, it returns the object with \<^verbatim>\<open>success\<close> true, the executor's
  results and the message \<^verbatim>\<open>Task completed successfully\<close>. There is no third outcome.
\<close>

theorem executeTask_all_or_nothing:
  "(page ag = None
      \<longrightarrow> executeTask env ag address goal s
            = (Inl (''Task execution failed: '' @ null_property_message ''goto''), s))
   \<and> (page ag = Some p \<and> goto env address 8000 (world s) = (Inl m, w1)
      \<longrightarrow> executeTask env ag address goal s
            = (Inl (''Task execution failed: '' @ m),
               \<lparr>world = w1, calls = calls s @ [Goto address 8000]\<rparr>))
   \<and> (page ag = Some p \<and> goto env address 8000 (world s) = (Inr u, w1)
        \<and> extractPageContent env \<lparr>world = w1, calls = calls s @ [Goto address 8000]\<rparr> = (Inl m, s2)
      \<longrightarrow> executeTask env ag address goal s = (Inl (''Task execution failed: '' @ m), s2))
   \<and> (page ag = Some p \<and> goto env address 8000 (world s) = (Inr u, w1)
        \<and> extractPageContent env \<lparr>world = w1, calls = calls s @ [Goto address 8000]\<rparr>
            = (Inr content, s2)
        \<and> analyzeContent env content goal s2 = (Inl m, s3)
      \<longrightarrow> executeTask env ag address goal s = (Inl (''Task execution failed: '' @ m), s3))
   \<and> (page ag = Some p \<and> goto env address 8000 (world s) = (Inr u, w1)
        \<and> extractPageContent env \<lparr>world = w1, calls = calls s @ [Goto address 8000]\<rparr>
            = (Inr content, s2)
        \<and> analyzeContent env content goal s2 = (Inr actions, s3)
      \<longrightarrow> executeTask env ag address goal s
            = (Inr \<lparr>success = True, result = fst (executeActions env actions s3),
                    message = ''Task completed successfully''\<rparr>,
               snd (executeActions env actions s3)))
   \<and> (createChatCompletion env (chat_request_for content goal) (world s2) = (Inl m, w3)
      \<longrightarrow> fst (analyzeContent env content goal s2) = Inl m)
   \<and> (createChatCompletion env (chat_request_for content goal) (world s2) = (Inr (None # rest), w3)
      \<longrightarrow> fst (analyzeContent env content goal s2) = Inl (null_property_message ''split''))
   \<and> ((\<exists>e. fst (executeTask env ag address goal s) = Inl (''Task execution failed: '' @ e))
        \<or> (\<exists>res. fst (executeTask env ag address goal s)
               = Inr \<lparr>success = True, result = res, message = ''Task completed successfully''\<rparr>))"
proof (intro conjI impI)
  assume "page ag = None"
  then show "executeTask env ag address goal s
            = (Inl (''Task execution failed: '' @ null_property_message ''goto''), s)"
    by (simp add: executeTask_def executeTask_try_def)
next
  assume "page ag = Some p \<and> goto env address 8000 (world s) = (Inl m, w1)"
  then show "executeTask env ag address goal s
            = (Inl (''Task execution failed: '' @ m),
               \<lparr>world = w1, calls = calls s @ [Goto address 8000]\<rparr>)"
    by (simp add: executeTask_def executeTask_try_def invoke_eq)
next
  assume "page ag = Some p \<and> goto env address 8000 (world s) = (Inr u, w1)
        \<and> extractPageContent env \<lparr>world = w1, calls = calls s @ [Goto address 8000]\<rparr> = (Inl m, s2)"
  then show "executeTask env ag address goal s = (Inl (''Task execution failed: '' @ m), s2)"
    by (simp add: executeTask_def executeTask_try_def invoke_eq)
next
  assume "page ag = Some p \<and> goto env address 8000 (world s) = (Inr u, w1)
        \<and> extractPageContent env \<lparr>world = w1, calls = calls s @ [Goto address 8000]\<rparr>
            = (Inr content, s2)
        \<and> analyzeContent env content goal s2 = (Inl m, s3)"
  then show "executeTask env ag address goal s = (Inl (''Task execution failed: '' @ m), s3)"
    by (simp add: executeTask_def executeTask_try_def invoke_eq)
next
  assume "page ag = Some p \<and> goto env address 8000 (world s) = (Inr u, w1)
        \<and> extractPageContent env \<lparr>world = w1, calls = calls s @ [Goto address 8000]\<rparr>
            = (Inr content, s2)
        \<and> analyzeContent env content goal s2 = (Inr actions, s3)"
  then show "executeTask env ag address goal s
            = (Inr \<lparr>success = True, result = fst (executeActions env actions s3),
                    message = ''Task completed successfully''\<rparr>,
               snd (executeActions env actions s3))"
    by (simp add: executeTask_def executeTask_try_def invoke_eq split: prod.splits)
next
  assume "createChatCompletion env (chat_request_for content goal) (world s2) = (Inl m, w3)"
  then show "fst (analyzeContent env content goal s2) = Inl m"
    by (simp add: analyzeContent_def invoke_eq)
next
  assume "createChatCompletion env (chat_request_for content goal) (world s2)
      = (Inr (None # rest), w3)"
  then show "fst (analyzeContent env content goal s2) = Inl (null_property_message ''split'')"
    by (simp add: analyzeContent_def invoke_eq parseAnalysis_def)
next
  show "(\<exists>e. fst (executeTask env ag address goal s) = Inl (''Task execution failed: '' @ e))
        \<or> (\<exists>res. fst (executeTask env ag address goal s)
               = Inr \<lparr>success = True, result = res, message = ''Task completed successfully''\<rparr>)"
    by (auto simp: executeTask_def executeTask_try_def split: option.splits prod.splits sum.splits)
qed

text \<open>
  The theorem on the stub environment and on variants of it in which one stage fails: an
  agent with no page, the address that times out, an extraction that rejects, a request
  to the model that rejects, a completion whose content is \<^verbatim>\<open>null\<close>, and the run in
  which every stage succeeds.
\<close>

theorem executeTask_all_or_nothing_witness:
  "executeTask stub_env new_WebAgent ''http://site.test'' ''log in with user test'' (start [])
     = (Inl (''Task execution failed: '' @ null_property_message ''goto''), start [])
   \<and> executeTask stub_env \<lparr>browser = Some (), page = Some ()\<rparr> ''http://down.test''
         ''log in with user test'' (start [])
     = (Inl ''Task execution failed: Navigation timeout of 8000 ms exceeded'',
        \<lparr>world = [], calls = [Goto ''http://down.test'' 8000]\<rparr>)
   \<and> executeTask
         (stub_env\<lparr>evaluate_content := \<lambda>w. (Inl ''Execution context was destroyed'', w)\<rparr>)
         \<lparr>browser = Some (), page = Some ()\<rparr> ''http://site.test''
         ''log in with user test'' (start [])
     = (Inl ''Task execution failed: Execution context was destroyed'',
        \<lparr>world = [], calls = [Goto ''http://site.test'' 8000, EvaluateContent]\<rparr>)
   \<and> fst (executeTask
         (stub_env\<lparr>createChatCompletion := \<lambda>r w. (Inl ''Request failed with status code 429'', w)\<rparr>)
         \<lparr>browser = Some (), page = Some ()\<rparr> ''http://site.test''
         ''log in with user test'' (start []))
     = Inl ''Task execution failed: Request failed with status code 429''
   \<and> fst (executeTask (stub_env\<lparr>createChatCompletion := \<lambda>r w. (Inr [None], w)\<rparr>)
         \<lparr>browser = Some (), page = Some ()\<rparr> ''http://site.test''
         ''log in with user test'' (start []))
     = Inl (''Task execution failed: '' @ null_property_message ''split'')
   \<and> fst (executeTask stub_env \<lparr>browser = Some (), page = Some ()\<rparr> ''http://site.test''
         ''log in with user test'' (start [''#login-btn'']))
     = Inr \<lparr>success = True, result = [JString ''Clicked #login-btn''],
            message = ''Task completed successfully''\<rparr>"
proof -
  let ?ag = "\<lparr>browser = Some (), page = Some ()\<rparr>"
  let ?site = "''http://site.test''"
  let ?down = "''http://down.test''"
  let ?goal = "''log in with user test''"
  let ?content = "\<lparr>text' = ''Sign in'', links = ''[]'', inputs = ''[]'', buttons = ''[]''\<rparr>"
  let ?env2 = "stub_env\<lparr>evaluate_content := \<lambda>w. (Inl ''Execution context was destroyed'', w)\<rparr>"
  let ?env3 = "stub_env\<lparr>createChatCompletion :=
      \<lambda>r w. (Inl ''Request failed with status code 429'', w)\<rparr>"
  let ?env4 = "stub_env\<lparr>createChatCompletion := \<lambda>r w. (Inr [None], w)\<rparr>"
  let ?s1 = "\<lambda>w. \<lparr>world = w, calls = [Goto ?site 8000]\<rparr> :: string list run"
  let ?s2 = "\<lambda>w. \<lparr>world = w, calls = [Goto ?site 8000, EvaluateContent]\<rparr> :: string list run"
  let ?s3 = "\<lambda>w. \<lparr>world = w, calls = [Goto ?site 8000, EvaluateContent,
      CreateChatCompletion (chat_request_for ?content ?goal)]\<rparr> :: string list run"
  let ?login = "\<lparr>type = ''click'', selector = Some ''#login-btn'', value' = None\<rparr>"

  have h1: "page new_WebAgent = None" by (simp add: new_WebAgent_def)
  have b1: "executeTask stub_env new_WebAgent ?site ?goal (start [])
     = (Inl (''Task execution failed: '' @ null_property_message ''goto''), start [])"
    by (rule executeTask_all_or_nothing [THEN conjunct1, THEN mp, OF h1])

  have h2: "page ?ag = Some () \<and> goto stub_env ?down 8000 (world (start []))
      = (Inl ''Navigation timeout of 8000 ms exceeded'', [])"
    by (simp add: stub_goto start_def)
  have b2: "executeTask stub_env ?ag ?down ?goal (start [])
     = (Inl (''Task execution failed: '' @ ''Navigation timeout of 8000 ms exceeded''),
        \<lparr>world = [], calls = calls (start []) @ [Goto ?down 8000]\<rparr>)"
    by (rule executeTask_all_or_nothing [THEN conjunct2, THEN conjunct1, THEN mp, OF h2])

  have h3: "page ?ag = Some () \<and> goto ?env2 ?site 8000 (world (start [])) = (Inr (), [])
      \<and> extractPageContent ?env2 \<lparr>world = [], calls = calls (start []) @ [Goto ?site 8000]\<rparr>
          = (Inl ''Execution context was destroyed'', ?s2 [])"
    by (simp add: stub_goto start_def extractPageContent_def invoke_def)
  have b3: "executeTask ?env2 ?ag ?site ?goal (start [])
     = (Inl (''Task execution failed: '' @ ''Execution context was destroyed''), ?s2 [])"
    by (rule executeTask_all_or_nothing
          [THEN conjunct2, THEN conjunct2, THEN conjunct1, THEN mp, OF h3])

  have h4a: "createChatCompletion ?env3 (chat_request_for ?content ?goal) (world (?s2 []))
      = (Inl ''Request failed with status code 429'', [])"
    by simp
  have b4a: "fst (analyzeContent ?env3 ?content ?goal (?s2 []))
      = Inl ''Request failed with status code 429''"
    by (rule executeTask_all_or_nothing
          [THEN conjunct2, THEN conjunct2, THEN conjunct2, THEN conjunct2, THEN conjunct2,
           THEN conjunct1, THEN mp, OF h4a])
  have h4: "page ?ag = Some () \<and> goto ?env3 ?site 8000 (world (start [])) = (Inr (), [])
      \<and> extractPageContent ?env3 \<lparr>world = [], calls = calls (start []) @ [Goto ?site 8000]\<rparr>
          = (Inr ?content, ?s2 [])
      \<and> analyzeContent ?env3 ?content ?goal (?s2 [])
          = (Inl ''Request failed with status code 429'', ?s3 [])"
    using b4a
    by (simp add: stub_goto stub_content start_def extractPageContent_def invoke_def
          analyzeContent_def)
  have b4: "executeTask ?env3 ?ag ?site ?goal (start [])
     = (Inl (''Task execution failed: '' @ ''Request failed with status code 429''), ?s3 [])"
    by (rule executeTask_all_or_nothing
          [THEN conjunct2, THEN conjunct2, THEN conjunct2, THEN conjunct1, THEN mp, OF h4])

  have h5a: "createChatCompletion ?env4 (chat_request_for ?content ?goal) (world (?s2 []))
      = (Inr (None # []), [])"
    by simp
  have b5a: "fst (analyzeContent ?env4 ?content ?goal (?s2 []))
      = Inl (null_property_message ''split'')"
    by (rule executeTask_all_or_nothing
          [THEN conjunct2, THEN conjunct2, THEN conjunct2, THEN conjunct2, THEN conjunct2,
           THEN conjunct2, THEN conjunct1, THEN mp, OF h5a])
  have h5: "page ?ag = Some () \<and> goto ?env4 ?site 8000 (world (start [])) = (Inr (), [])
      \<and> extractPageContent ?env4 \<lparr>world = [], calls = calls (start []) @ [Goto ?site 8000]\<rparr>
          = (Inr ?content, ?s2 [])
      \<and> analyzeContent ?env4 ?content ?goal (?s2 [])
          = (Inl (null_property_message ''split''), ?s3 [])"
    using b5a
    by (simp add: stub_goto stub_content start_def extractPageContent_def invoke_def
          analyzeContent_def)
  have b5: "executeTask ?env4 ?ag ?site ?goal (start [])
     = (Inl (''Task execution failed: '' @ null_property_message ''split''), ?s3 [])"
    by (rule executeTask_all_or_nothing
          [THEN conjunct2, THEN conjunct2, THEN conjunct2, THEN conjunct1, THEN mp, OF h5])

  have h6: "page ?ag = Some ()
      \<and> goto stub_env ?site 8000 (world (start [''#login-btn''])) = (Inr (), [''#login-btn''])
      \<and> extractPageContent stub_env
           \<lparr>world = [''#login-btn''], calls = calls (start [''#login-btn'']) @ [Goto ?site 8000]\<rparr>
          = (Inr ?content, ?s2 [''#login-btn''])
      \<and> analyzeContent stub_env ?content ?goal (?s2 [''#login-btn''])
          = (Inr [?login], ?s3 [''#login-btn''])"
    by (simp add: stub_goto stub_content stub_chat start_def extractPageContent_def invoke_def
          analyzeContent_def stub_plan_parsed)
  have b6: "executeTask stub_env ?ag ?site ?goal (start [''#login-btn''])
     = (Inr \<lparr>success = True,
             result = fst (executeActions stub_env [?login] (?s3 [''#login-btn''])),
             message = ''Task completed successfully''\<rparr>,
        snd (executeActions stub_env [?login] (?s3 [''#login-btn''])))"
    by (rule executeTask_all_or_nothing
          [THEN conjunct2, THEN conjunct2, THEN conjunct2, THEN conjunct2, THEN conjunct1,
           THEN mp, OF h6])
  have r6: "fst (executeActions stub_env [?login] (?s3 [''#login-btn'']))
      = [JString ''Clicked #login-btn'']"
    by (simp add: executeActions_def execute_action_def invoke_def settle_def stub_click
          stub_target_def stub_wait template_def)
  from b1 b2 b3 b4 b5 b6 r6 show ?thesis by (simp add: start_def)
qed

section \<open>The handler: closing the browser\<close>

text \<open>
  C9 does not hold of the handler. On the stub environment, for a request whose
  navigation times out, \<^verbatim>\<open>executeTask\<close> throws, the handler answers 500 with the message
  of the error, and the calls of the whole invocation are the launch, the new page and
  the navigation: \<^verbatim>\<open>close\<close> is never called and the browser stays open. For the request
  that succeeds, the last call of the invocation is the one that closes the browser.
\<close>

theorem handler_failure_leaves_browser_open:
  "handler stub_env
       \<lparr>http_method = ''POST'', url = Some ''http://down.test'',
          task = Some ''log in with user test''\<rparr> (start [''#login-btn''])
     = (\<lparr>status = 500,
          json = ErrorBody ''Task execution failed: Navigation timeout of 8000 ms exceeded''\<rparr>,
        \<lparr>world = [''#login-btn''], calls = [Launch, NewPage, Goto ''http://down.test'' 8000]\<rparr>)
   \<and> BrowserClose \<notin> set [Launch, NewPage, Goto ''http://down.test'' 8000]
   \<and> handler stub_env
       \<lparr>http_method = ''POST'', url = Some ''http://site.test'',
          task = Some ''log in with user test''\<rparr> (start [''#login-btn''])
     = (\<lparr>status = 200,
          json = ResultBody \<lparr>success = True, result = [JString ''Clicked #login-btn''],
                             message = ''Task completed successfully''\<rparr>\<rparr>,
        \<lparr>world = [''#login-btn''],
         calls = [Launch, NewPage, Goto ''http://site.test'' 8000, EvaluateContent,
                  CreateChatCompletion
                    (chat_request_for
                       \<lparr>text' = ''Sign in'', links = ''[]'', inputs = ''[]'', buttons = ''[]''\<rparr>
                       ''log in with user test''),
                  Click (Some ''#login-btn''), WaitForNetworkIdle 3000, BrowserClose]\<rparr>)"
  by (simp add: handler_def falsy_def initialize_def new_WebAgent_def close_def
        executeTask_def executeTask_try_def extractPageContent_def analyzeContent_def
        executeActions_def execute_action_def settle_def invoke_def start_def
        stub_session stub_goto stub_content stub_chat stub_click stub_target_def stub_wait
        stub_plan_parsed template_def)

end
